(* ===== verification/Prelude.thy ===== *)
theory Prelude
  imports Main
begin

text \<open>
  Shared vocabulary of the development.
  \<^item> The named fact collections the component theories fill: \<open>act_simps\<close> (the
    state-and-exception monad), \<open>js_simps\<close> (the JavaScript runtime model) and
    \<open>decode_simps\<close> (the operation decoder).
  \<^item> The monad in which the action's \<open>async\<close> code is modelled: a computation reads
    and returns a state and yields either a thrown error (\<open>Inl\<close>) or a value (\<open>Inr\<close>).
    An \<open>await\<close> that rejects and a \<open>throw\<close> are both \<open>Inl\<close>; the \<open>try\<close> block of
    \<open>run()\<close> is a chain of \<open>act_bind\<close>, its \<open>catch\<close> a case on the result.
  \<^item> Generic lemmas on lists and prefixes used by the scanners of the decoder.
\<close>

named_theorems act_simps "rewrite rules of the state-and-exception monad"
named_theorems js_simps "evaluation rules of the JavaScript runtime model"
named_theorems decode_simps "evaluation rules of the operation decoder"

section \<open>A state-and-exception monad\<close>

type_synonym ('s, 'e, 'a) act = "'s \<Rightarrow> ('e + 'a) \<times> 's"

definition act_return :: "'a \<Rightarrow> ('s, 'e, 'a) act" where
  "act_return a s = (Inr a, s)"

definition act_throw :: "'e \<Rightarrow> ('s, 'e, 'a) act" where
  "act_throw e s = (Inl e, s)"

definition act_lift :: "'e + 'a \<Rightarrow> ('s, 'e, 'a) act" where
  "act_lift r s = (r, s)"

definition act_bind :: "('s, 'e, 'a) act \<Rightarrow> ('a \<Rightarrow> ('s, 'e, 'b) act) \<Rightarrow> ('s, 'e, 'b) act" where
  "act_bind m f s = (case m s of (Inl e, s') \<Rightarrow> (Inl e, s') | (Inr a, s') \<Rightarrow> f a s')"

lemma act_bind_return [simp, act_simps]: "act_bind (act_return a) f = f a"
  by (simp add: act_bind_def act_return_def fun_eq_iff)

lemma act_bind_throw [simp, act_simps]: "act_bind (act_throw e) f = act_throw e"
  by (simp add: act_bind_def act_throw_def fun_eq_iff)

lemma act_bind_lift_Inl [simp, act_simps]: "act_bind (act_lift (Inl e)) f = act_throw e"
  by (simp add: act_bind_def act_lift_def act_throw_def fun_eq_iff)

lemma act_bind_lift_Inr [simp, act_simps]: "act_bind (act_lift (Inr a)) f = f a"
  by (simp add: act_bind_def act_lift_def fun_eq_iff)

lemma act_bind_return_right [simp, act_simps]: "act_bind m act_return = m"
  by (simp add: act_bind_def act_return_def fun_eq_iff split: prod.splits sum.splits)

lemma act_bind_assoc [act_simps]:
  "act_bind (act_bind m f) g = act_bind m (\<lambda>a. act_bind (f a) g)"
  by (simp add: act_bind_def fun_eq_iff split: prod.splits sum.splits)

lemma act_bind_apply [act_simps]:
  "act_bind m f s = (case m s of (Inl e, s') \<Rightarrow> (Inl e, s') | (Inr a, s') \<Rightarrow> f a s')"
  by (simp add: act_bind_def)

lemma act_throw_apply [simp, act_simps]: "act_throw e s = (Inl e, s)"
  by (simp add: act_throw_def)

lemma act_return_apply [simp, act_simps]: "act_return a s = (Inr a, s)"
  by (simp add: act_return_def)

lemma act_lift_apply [simp, act_simps]: "act_lift r s = (r, s)"
  by (simp add: act_lift_def)

section \<open>Lists and prefixes\<close>

text \<open>
  A prefix made of characters with a property, followed by one without it, is exactly
  what \<open>takeWhile\<close> returns: the fact behind the greedy \<open>\d+\<close> of the regular
  expressions of the decoder.
\<close>

lemma takeWhile_run [simp]:
  "\<forall>x\<in>set a. P x \<Longrightarrow> \<not> P c \<Longrightarrow> takeWhile P (a @ c # r) = a"
  by (induction a) auto

lemma dropWhile_run [simp]:
  "\<forall>x\<in>set a. P x \<Longrightarrow> \<not> P c \<Longrightarrow> dropWhile P (a @ c # r) = c # r"
  by (induction a) auto

text \<open>Two runs of \<open>P\<close>-characters each closed by a non-\<open>P\<close> character cannot be
  prefixes of the same list unless they are equal.\<close>

lemma run_prefix_unique:
  assumes "\<forall>x\<in>set a. P x" "\<not> P c" "\<forall>x\<in>set a'. P x" "\<not> P c'"
    and "a @ c # r = a' @ c' # r'"
  shows "a = a' \<and> c = c' \<and> r = r'"
proof -
  have "takeWhile P (a @ c # r) = a" "takeWhile P (a' @ c' # r') = a'"
    using assms(1-4) by simp_all
  with assms(5) have "a = a'" by simp
  with assms(5) show ?thesis by simp
qed

lemma sep_prefix_unique:
  "c \<notin> set a \<Longrightarrow> c \<notin> set a' \<Longrightarrow> a @ c # r = a' @ c # r' \<Longrightarrow> a = a' \<and> r = r'"
  by (induction a arbitrary: a') (auto simp: Cons_eq_append_conv)

lemma append_eq_prefix:
  "length p \<le> length u \<Longrightarrow> u @ v = p @ x \<Longrightarrow> u = p @ drop (length p) u \<and> x = drop (length p) u @ v"
  by (metis append_eq_append_conv_if append_take_drop_id)

end
