(* ===== verification/JsRuntime.thy ===== *)
theory JsRuntime
  imports Prelude
begin

text \<open>
  The part of the JavaScript runtime that \<open>src/index.js\<close> relies on, written out so that
  the program's definitions can call it: JSON values (what \<open>res.json()\<close> yields and
  \<open>JSON.stringify\<close> prints), the errors the program throws or that reach its
  \<open>catch\<close>, truthiness, \<open>String(v)\<close>, loose equality with \<open>0\<close>, property access,
  and the string operations \<open>split\<close>, \<open>indexOf\<close>, \<open>replace\<close> and
  \<open>Array.prototype.join\<close>. Strings are \<open>char\<close> lists; a character is a byte here,
  where JavaScript has UTF-16 code units, which only matters for text outside ASCII.
\<close>

section \<open>Values and errors\<close>

text \<open>A JSON value. JavaScript numbers are modelled by the integers, which covers every
  number the program reads or prints (status codes, identifiers).\<close>

datatype json =
    JNull
  | JBool bool
  | JNum int
  | JStr string
  | JArr "json list"
  | JObj "(string \<times> json) list"

text \<open>The errors that reach the \<open>catch\<close> of \<open>run()\<close>: the program's own
  \<open>new Error(...)\<close>, a \<open>TypeError\<close> of the runtime, and the \<open>FetchError\<close> with
  which node-fetch (version 2, the one \<open>require\<close> loads) rejects a failed request or
  a body that is not JSON.\<close>

datatype js_error =
    Error string
  | TypeError string
  | FetchError string

primrec error_message :: "js_error \<Rightarrow> string" where
  "error_message (Error m) = m"
| "error_message (TypeError m) = m"
| "error_message (FetchError m) = m"

abbreviation squote :: string where
  "squote \<equiv> [CHR 0x27]"

section \<open>Printing: Number.prototype.toString, Array.prototype.join, String(v)\<close>

definition digit_char :: "nat \<Rightarrow> char" where
  "digit_char d = ''0123456789'' ! (d mod 10)"

fun nat_to_decimal :: "nat \<Rightarrow> string" where
  "nat_to_decimal n =
     (if n < 10 then [digit_char n]
      else nat_to_decimal (n div 10) @ [digit_char (n mod 10)])"

declare nat_to_decimal.simps [simp del]

definition int_to_decimal :: "int \<Rightarrow> string" where
  "int_to_decimal i =
     (if i < 0 then CHR ''-'' # nat_to_decimal (nat (- i)) else nat_to_decimal (nat i))"

fun js_join :: "string \<Rightarrow> string list \<Rightarrow> string" where
  "js_join sep [] = []"
| "js_join sep [x] = x"
| "js_join sep (x # y # ys) = x @ sep @ js_join sep (y # ys)"

text \<open>\<open>String(v)\<close> (and a template literal's \<open>${v}\<close>) of a JSON value: an array
  prints its elements joined by commas, \<open>null\<close> elements as the empty string.\<close>

fun js_to_string :: "json \<Rightarrow> string" where
  "js_to_string JNull = ''null''"
| "js_to_string (JBool b) = (if b then ''true'' else ''false'')"
| "js_to_string (JNum n) = int_to_decimal n"
| "js_to_string (JStr s) = s"
| "js_to_string (JArr xs) =
     js_join '','' (map (\<lambda>x. if x = JNull then [] else js_to_string x) xs)"
| "js_to_string (JObj fs) = ''[object Object]''"

text \<open>\<open>new Error(v).message\<close>: the empty string for \<open>undefined\<close>, else \<open>String(v)\<close>.\<close>

definition error_arg :: "json option \<Rightarrow> string" where
  "error_arg v = (case v of None \<Rightarrow> [] | Some j \<Rightarrow> js_to_string j)"

section \<open>JSON.stringify\<close>

definition hex_digit :: "nat \<Rightarrow> char" where
  "hex_digit n = ''0123456789abcdef'' ! (n mod 16)"

definition json_escape_char :: "char \<Rightarrow> string" where
  "json_escape_char c =
     (if c = CHR 0x22 then [CHR 0x5C, CHR 0x22]
      else if c = CHR 0x5C then [CHR 0x5C, CHR 0x5C]
      else if c = CHR 0x08 then [CHR 0x5C, CHR ''b'']
      else if c = CHR 0x0C then [CHR 0x5C, CHR ''f'']
      else if c = CHR 0x0A then [CHR 0x5C, CHR ''n'']
      else if c = CHR 0x0D then [CHR 0x5C, CHR ''r'']
      else if c = CHR 0x09 then [CHR 0x5C, CHR ''t'']
      else if of_char c < (32::nat)
        then [CHR 0x5C, CHR ''u'', CHR ''0'', CHR ''0'',
              hex_digit (of_char c div 16), hex_digit (of_char c mod 16)]
      else [c])"

definition json_quote :: "string \<Rightarrow> string" where
  "json_quote s = CHR 0x22 # concat (map json_escape_char s) @ [CHR 0x22]"

fun json_stringify :: "json \<Rightarrow> string" where
  "json_stringify JNull = ''null''"
| "json_stringify (JBool b) = (if b then ''true'' else ''false'')"
| "json_stringify (JNum n) = int_to_decimal n"
| "json_stringify (JStr s) = json_quote s"
| "json_stringify (JArr xs) = ''['' @ js_join '','' (map json_stringify xs) @ '']''"
| "json_stringify (JObj fs) =
     ''{'' @ js_join '','' (map (\<lambda>(k, v). json_quote k @ '':'' @ json_stringify v) fs) @ ''}''"

text \<open>The reading side, for the round trip: a JSON string literal as \<open>JSON.parse\<close>
  reads it (RFC 8259, section 7). \<open>json_string_body\<close> reads the characters after the
  opening quote up to the closing one and returns the decoded text and what follows.
  This is the server's parser, not code of the program.\<close>

definition hex_val :: "char \<Rightarrow> nat option" where
  "hex_val c = map_of (zip ''0123456789abcdefABCDEF''
       [0, 1, 2, 3, 4, 5, 6, 7, 8, 9, 10, 11, 12, 13, 14, 15, 10, 11, 12, 13, 14, 15]) c"

definition json_simple_escape :: "char \<Rightarrow> char option" where
  "json_simple_escape e =
     map_of (zip [CHR 0x22, CHR 0x5C, CHR ''/'', CHR ''b'', CHR ''f'', CHR ''n'', CHR ''r'', CHR ''t'']
                 [CHR 0x22, CHR 0x5C, CHR ''/'', CHR 0x08, CHR 0x0C, CHR 0x0A, CHR 0x0D, CHR 0x09]) e"

fun json_string_body :: "string \<Rightarrow> (string \<times> string) option" where
  "json_string_body [] = None"
| "json_string_body (c # cs) =
     (if c = CHR 0x22 then Some ([], cs)
      else if c = CHR 0x5C then
        (case cs of
           [] \<Rightarrow> None
         | e # cs' \<Rightarrow>
             (case json_simple_escape e of
                Some d \<Rightarrow> map_option (\<lambda>(t, r). (d # t, r)) (json_string_body cs')
              | None \<Rightarrow>
                  (if e = CHR ''u'' then
                     (case cs' of
                        a # b # x # y # cs'' \<Rightarrow>
                          (case (hex_val a, hex_val b, hex_val x, hex_val y) of
                             (Some va, Some vb, Some vx, Some vy) \<Rightarrow>
                               if va = 0 \<and> vb = 0 then
                                 map_option (\<lambda>(t, r). (char_of (16 * vx + vy) # t, r)) (json_string_body cs'')
                               else None
                           | _ \<Rightarrow> None)
                      | _ \<Rightarrow> None)
                   else None)))
      else if of_char c < (32::nat) then None
      else map_option (\<lambda>(t, r). (c # t, r)) (json_string_body cs))"

definition json_parse_string :: "string \<Rightarrow> (string \<times> string) option" where
  "json_parse_string s = (case s of c # cs \<Rightarrow> if c = CHR 0x22 then json_string_body cs else None | [] \<Rightarrow> None)"

section \<open>Truthiness, loose equality with 0, property access\<close>

text \<open>A property read yields \<open>undefined\<close> (\<open>None\<close>) or a value. \<open>js_truthy\<close> is
  JavaScript's \<open>ToBoolean\<close> on the result of such a read.\<close>

fun js_truthy :: "json option \<Rightarrow> bool" where
  "js_truthy None = False"
| "js_truthy (Some JNull) = False"
| "js_truthy (Some (JBool b)) = b"
| "js_truthy (Some (JNum n)) = (n \<noteq> 0)"
| "js_truthy (Some (JStr s)) = (s \<noteq> [])"
| "js_truthy (Some (JArr xs)) = True"
| "js_truthy (Some (JObj fs)) = True"

definition js_whitespace :: "char \<Rightarrow> bool" where
  "js_whitespace c \<longleftrightarrow> c \<in> set [CHR 0x09, CHR 0x0A, CHR 0x0B, CHR 0x0C, CHR 0x0D, CHR 0x20]"

definition js_trim :: "string \<Rightarrow> string" where
  "js_trim s = rev (dropWhile js_whitespace (rev (dropWhile js_whitespace s)))"

definition is_digit :: "char \<Rightarrow> bool" where
  "is_digit c \<longleftrightarrow> c \<in> set ''0123456789''"

text \<open>\<open>StringToNumber(s) = 0\<close>: after trimming, the empty string, a signed decimal
  literal whose mantissa digits are all \<open>0\<close> (any exponent), or a \<open>0x\<close>, \<open>0o\<close>,
  \<open>0b\<close> literal whose digits are all \<open>0\<close>. Everything else is a non-zero number
  or \<open>NaN\<close>.\<close>

definition decimal_zero :: "string \<Rightarrow> bool" where
  "decimal_zero u =
     (let ip = takeWhile is_digit u; r1 = dropWhile is_digit u;
          fp = (case r1 of CHR ''.'' # r \<Rightarrow> takeWhile is_digit r | _ \<Rightarrow> []);
          r2 = (case r1 of CHR ''.'' # r \<Rightarrow> dropWhile is_digit r | _ \<Rightarrow> r1);
          ex = (case r2 of [] \<Rightarrow> True
                | e # r \<Rightarrow> e \<in> set ''eE'' \<and>
                    (let d = (case r of x # r' \<Rightarrow> if x \<in> set ''+-'' then r' else r | [] \<Rightarrow> [])
                     in d \<noteq> [] \<and> (\<forall>c\<in>set d. is_digit c)))
      in (ip \<noteq> [] \<or> fp \<noteq> []) \<and> ex \<and> (\<forall>c\<in>set (ip @ fp). c = CHR ''0''))"

definition str_numeric_zero :: "string \<Rightarrow> bool" where
  "str_numeric_zero s =
     (let t = js_trim s in
      t = [] \<or>
      (case t of
         CHR ''0'' # x # ds \<Rightarrow> x \<in> set ''xXoObB'' \<and> ds \<noteq> [] \<and> (\<forall>d\<in>set ds. d = CHR ''0'')
       | _ \<Rightarrow> False) \<or>
      decimal_zero (case t of c # r \<Rightarrow> if c \<in> set ''+-'' then r else t | [] \<Rightarrow> t))"

text \<open>\<open>v == 0\<close>: \<open>undefined\<close> and \<open>null\<close> are never loosely equal to a number; a
  boolean compares as 0 or 1; a string, an array or an object is first turned into a
  string and read as a number.\<close>

fun js_loose_eq_zero :: "json option \<Rightarrow> bool" where
  "js_loose_eq_zero None = False"
| "js_loose_eq_zero (Some JNull) = False"
| "js_loose_eq_zero (Some (JBool b)) = (\<not> b)"
| "js_loose_eq_zero (Some (JNum n)) = (n = 0)"
| "js_loose_eq_zero (Some (JStr s)) = str_numeric_zero s"
| "js_loose_eq_zero (Some (JArr xs)) = str_numeric_zero (js_to_string (JArr xs))"
| "js_loose_eq_zero (Some (JObj fs)) = str_numeric_zero (js_to_string (JObj fs))"

text \<open>\<open>v.k\<close> on a value parsed from JSON, for a key \<open>k\<close> that is no built-in
  property of strings, arrays or \<open>Object.prototype\<close> (the program reads
  \<open>error\<close>, \<open>error_description\<close>, \<open>access_token\<close> and \<open>legnth\<close>): reading
  from \<open>null\<close> throws; an object yields its own property, the last of duplicate keys
  as \<open>JSON.parse\<close> keeps it; every other value yields \<open>undefined\<close>.\<close>

definition get_prop :: "json \<Rightarrow> string \<Rightarrow> js_error + json option" where
  "get_prop v k =
     (case v of
        JNull \<Rightarrow> Inl (TypeError (''Cannot read properties of null (reading '' @ squote @ k @ squote @ '')''))
      | JObj fs \<Rightarrow> Inr (map_of (rev fs) k)
      | _ \<Rightarrow> Inr None)"

section \<open>Strings: split, indexOf, replace\<close>

text \<open>\<open>s.split(c)\<close> for a one-character separator: the pieces between the
  separators, always at least one.\<close>

fun js_split :: "char \<Rightarrow> string \<Rightarrow> string list" where
  "js_split c [] = [[]]"
| "js_split c (x # xs) =
     (if x = c then [] # js_split c xs
      else (case js_split c xs of [] \<Rightarrow> [[x]] | w # ws \<Rightarrow> (x # w) # ws))"

text \<open>The first occurrence of \<open>pat\<close> in a string, as the parts before and after it:
  what \<open>s.indexOf(pat)\<close> locates.\<close>

fun split_first :: "'a list \<Rightarrow> 'a list \<Rightarrow> ('a list \<times> 'a list) option" where
  "split_first pat [] = (if pat = [] then Some ([], []) else None)"
| "split_first pat (x # xs) =
     (if take (length pat) (x # xs) = pat then Some ([], drop (length pat) (x # xs))
      else (case split_first pat xs of None \<Rightarrow> None | Some (p, q) \<Rightarrow> Some (x # p, q)))"

text \<open>\<open>s.replace(pat, rep)\<close> with a string pattern: the first occurrence only. The
  replacement is taken literally; the program's replacements (\<open>$0\<close> and the like)
  hold none of the patterns \<open>$$\<close>, \<open>$&\<close>, \<open>$`\<close>, \<open>$'\<close> that
  \<open>replace\<close> would expand, and \<open>$n\<close> refers to no capture of a string pattern.\<close>

definition js_replace_first :: "string \<Rightarrow> string \<Rightarrow> string \<Rightarrow> string" where
  "js_replace_first s pat rep =
     (case split_first pat s of None \<Rightarrow> s | Some (p, q) \<Rightarrow> p @ rep @ q)"

lemma get_prop_not_null [js_simps]: "v \<noteq> JNull \<Longrightarrow> \<exists>r. get_prop v k = Inr r"
  by (cases v) (auto simp: get_prop_def)

subsection \<open>Lemmas: split and join are inverse\<close>

lemma js_split_not_Nil [simp]: "js_split c s \<noteq> []"
  by (induction s) (auto split: list.splits)

lemma js_join_Cons: "ws \<noteq> [] \<Longrightarrow> js_join sep (w # ws) = w @ sep @ js_join sep ws"
  by (cases ws) auto

lemma js_join_Cons_Cons: "js_join sep ((x # w) # ws) = x # js_join sep (w # ws)"
  by (cases ws) auto

lemma js_join_split [simp]: "js_join [c] (js_split c s) = s"
  by (induction s) (auto simp: js_join_Cons js_join_Cons_Cons split: list.splits)

lemma js_split_set: "w \<in> set (js_split c s) \<Longrightarrow> set w \<subseteq> set s"
proof (induction s arbitrary: w)
  case (Cons x xs)
  then show ?case by (fastforce split: if_splits list.splits)
qed simp

lemma js_split_plain [simp]: "c \<notin> set w \<Longrightarrow> js_split c w = [w]"
  by (induction w) auto

lemma js_split_append_sep:
  "c \<notin> set w \<Longrightarrow> js_split c (w @ c # s) = w # js_split c s"
  by (induction w) auto

lemma js_split_append:
  "js_split c (a @ c # b) = js_split c a @ js_split c b"
proof (induction a)
  case (Cons x a)
  obtain w ws where "js_split c a = w # ws" by (cases "js_split c a") simp_all
  with Cons.IH show ?case by simp
qed simp

lemma js_split_join:
  "ws \<noteq> [] \<Longrightarrow> \<forall>w\<in>set ws. c \<notin> set w \<Longrightarrow> js_split c (js_join [c] ws) = ws"
proof (induction ws)
  case (Cons w ws)
  then show ?case
    by (cases "ws = []") (simp_all add: js_join_Cons js_split_append_sep)
qed simp

subsection \<open>Lemmas: the first occurrence\<close>

lemma split_first_Some:
  "split_first pat s = Some (p, q) \<Longrightarrow> s = p @ pat @ q"
proof (induction pat s arbitrary: p rule: split_first.induct)
  case (2 pat x xs)
  show ?case
  proof (cases "take (length pat) (x # xs) = pat")
    case True
    with "2.prems" have "p = []" "q = drop (length pat) (x # xs)" by simp_all
    with True show ?thesis by (metis append_Nil append_take_drop_id)
  next
    case False
    with "2.prems" obtain p0 where "split_first pat xs = Some (p0, q)" "p = x # p0"
      by (auto split: option.splits)
    with "2.IH"[OF False] show ?thesis by simp
  qed
qed (auto split: if_splits)

lemma split_first_first:
  "split_first pat s = Some (p, q) \<Longrightarrow> s = p' @ pat @ q' \<Longrightarrow> length p \<le> length p'"
proof (induction pat s arbitrary: p p' rule: split_first.induct)
  case (2 pat x xs)
  show ?case
  proof (cases "take (length pat) (x # xs) = pat")
    case True
    with "2.prems"(1) have "p = []" by simp
    then show ?thesis by simp
  next
    case False
    with "2.prems"(1) obtain p0 where p0: "split_first pat xs = Some (p0, q)" "p = x # p0"
      by (auto split: option.splits)
    show ?thesis
    proof (cases p')
      case Nil
      with "2.prems"(2) False show ?thesis by simp
    next
      case (Cons y p'')
      with "2.prems"(2) have "xs = p'' @ pat @ q'" by simp
      from "2.IH"[OF False p0(1) this] p0(2) Cons show ?thesis by simp
    qed
  qed
qed (auto split: if_splits)

lemma split_first_None:
  "split_first pat s = None \<Longrightarrow> s \<noteq> p @ pat @ q"
proof (induction pat s arbitrary: p rule: split_first.induct)
  case (2 pat x xs)
  then show ?case
    by (cases p) (auto split: if_splits option.splits)
qed (auto split: if_splits)

text \<open>An occurrence with no earlier one is the one \<open>split_first\<close> finds.\<close>

lemma split_first_eqI:
  assumes "s = p @ pat @ q"
    and "\<And>p' q'. s = p' @ pat @ q' \<Longrightarrow> length p \<le> length p'"
  shows "split_first pat s = Some (p, q)"
proof (cases "split_first pat s")
  case None
  with split_first_None assms(1) show ?thesis by blast
next
  case (Some r)
  then obtain p0 q0 where r: "split_first pat s = Some (p0, q0)" by (cases r) auto
  then have s0: "s = p0 @ pat @ q0" by (rule split_first_Some)
  from split_first_first[OF r assms(1)] assms(2)[OF s0] have "length p0 = length p" by simp
  with s0 assms(1) have "p0 = p \<and> q0 = q" by (metis append_eq_append_conv)
  with r show ?thesis by simp
qed


subsection \<open>Lemmas: JSON.stringify of a string is read back exactly\<close>

lemma hex_val_hex_digit:
  assumes "n < 16" shows "hex_val (hex_digit n) = Some n"
proof -
  from assms have "n \<in> set [0..<16]" by simp
  then show ?thesis
    by (simp add: upt_rec hex_val_def hex_digit_def) (elim disjE; simp)
qed

lemma json_string_body_control:
  assumes "of_char c < (32::nat)"
  shows "json_string_body ([CHR 0x5C, CHR ''u'', CHR ''0'', CHR ''0'',
              hex_digit (of_char c div 16), hex_digit (of_char c mod 16)] @ t) =
         map_option (\<lambda>(x, r). (c # x, r)) (json_string_body t)"
proof -
  let ?n = "of_char c :: nat"
  have "?n div 16 < 16" "?n mod 16 < 16" using assms by auto
  then have hx: "hex_val (hex_digit (?n div 16)) = Some (?n div 16)" "hex_val (hex_digit (?n mod 16)) = Some (?n mod 16)"
    by (simp_all only: hex_val_hex_digit)
  have ch: "char_of (16 * (?n div 16) + ?n mod 16) = c"
    by (metis div_mult_mod_eq char_of_char mult.commute)
  have u: "json_simple_escape (CHR ''u'') = None" and z: "hex_val (CHR ''0'') = Some 0"
    by (simp_all add: json_simple_escape_def hex_val_def)
  show ?thesis
    by (simp add: u z hx ch)
qed
lemma json_string_body_escape_char:
  "json_string_body (json_escape_char c @ t) = map_option (\<lambda>(x, r). (c # x, r)) (json_string_body t)"
proof (cases "c \<in> set [CHR 0x22, CHR 0x5C, CHR 0x08, CHR 0x0C, CHR 0x0A, CHR 0x0D, CHR 0x09]")
  case True
  then show ?thesis by (auto simp: json_escape_char_def json_simple_escape_def)
next
  case plain: False
  show ?thesis
  proof (cases "of_char c < (32::nat)")
    case True
    with plain have "json_escape_char c = [CHR 0x5C, CHR ''u'', CHR ''0'', CHR ''0'',
        hex_digit (of_char c div 16), hex_digit (of_char c mod 16)]"
      by (simp add: json_escape_char_def)
    with True show ?thesis by (simp only: json_string_body_control)
  next
    case False
    with plain show ?thesis by (simp add: json_escape_char_def)
  qed
qed

lemma json_parse_quote: "json_parse_string (json_quote s @ rest) = Some (s, rest)"
proof -
  have "json_string_body (concat (map json_escape_char s) @ CHR 0x22 # rest) = Some (s, rest)"
    by (induction s) (simp_all add: json_string_body_escape_char)
  then show ?thesis by (simp add: json_parse_string_def json_quote_def)
qed


subsection \<open>Lemmas: the string reader consumes its input\<close>

lemma map_option_prepend_Some:
  "map_option (\<lambda>(t, r). (d # t, r)) o' = Some (x, r) \<Longrightarrow> \<exists>x'. o' = Some (x', r)"
  by (cases o') auto

lemma json_string_body_shorter: "json_string_body s = Some (x, r) \<Longrightarrow> length r < length s"
proof (induction "length s" arbitrary: s x rule: less_induct)
  case less
  then obtain c cs where s: "s = c # cs" by (cases s) simp_all
  show ?case
  proof (cases "c = CHR 0x22")
    case True
    with less.prems s show ?thesis by simp
  next
    case nq: False
    show ?thesis
    proof (cases "c = CHR 0x5C")
      case bs: True
      then obtain e cs' where cs: "cs = e # cs'"
        using less.prems s nq by (cases cs) simp_all
      show ?thesis
      proof (cases "json_simple_escape e")
        case (Some d)
        with less.prems s nq bs cs obtain x' where "json_string_body cs' = Some (x', r)"
          by (auto dest: map_option_prepend_Some)
        from less.hyps[OF _ this] s cs show ?thesis by simp
      next
        case None
        with less.prems s nq bs cs obtain a b u v cs'' x' where
          cs': "cs' = a # b # u # v # cs''" and b: "json_string_body cs'' = Some (x', r)"
          by (auto split: if_splits list.splits option.splits)
        from less.hyps[OF _ b] s cs cs' show ?thesis by simp
      qed
    next
      case False
      with less.prems s nq obtain x' where "json_string_body cs = Some (x', r)"
        by (auto split: if_splits dest: map_option_prepend_Some)
      from less.hyps[OF _ this] s show ?thesis by simp
    qed
  qed
qed

lemma json_parse_string_shorter: "json_parse_string s = Some (x, r) \<Longrightarrow> length r < length s"
  by (cases s) (auto simp: json_parse_string_def split: if_splits dest: json_string_body_shorter)

end
