(* ===== verification/Decoder.thy ===== *)
theory Decoder
  imports JsRuntime
begin

text \<open>
  The operation decoder, lines 89--113 of \<open>run()\<close> in \<open>src/index.js\<close>. The
  operation string is split on \<open>.\<close>, but a service name that itself holds a dot
  (\<open>php8.0-fpm\<close>) is first replaced by a placeholder \<open>$i\<close>, where \<open>i\<close> is the
  index of the regular expression that found it, and put back after the split.
  \<^item> \<open>php_fpm_at\<close> and \<open>php_fpm_search\<close> are the regular expression
    \<open>/php\d+\.\d+-fpm/\<close> as \<open>test\<close> and \<open>match\<close> run it: the leftmost match,
    and at that position the one the backtracking matcher finds first;
  \<^item> \<open>protect\<close> is the loop over \<open>servicesUsingDotRegExps\<close> (lines 94--102);
  \<^item> \<open>placeholder_match\<close> is \<open>arg.match(/\$(\d)+/)\<close>, whose group 1 is the
    last digit of the run, and \<open>restore_arg\<close> the callback of lines 104--111;
  \<^item> \<open>decode_operation\<close> is the whole decoder with the \<open>shift\<close> of line 113.
  A restored argument may be \<open>undefined\<close> (\<open>None\<close>): an index with no recorded
  service string reads a hole of the array \<open>serviceStringReplacements\<close>.
\<close>

section \<open>The regular expression /php\d+\.\d+-fpm/\<close>

text \<open>The language of the regular expression.\<close>

definition php_fpm_lang :: "string \<Rightarrow> bool" where
  "php_fpm_lang w \<longleftrightarrow>
     (\<exists>a b. w = ''php'' @ a @ ''.'' @ b @ ''-fpm'' \<and> a \<noteq> [] \<and> b \<noteq> [] \<and>
            (\<forall>c\<in>set a. is_digit c) \<and> (\<forall>c\<in>set b. is_digit c))"

text \<open>A match starting at the front of the string. Each \<open>\d+\<close> is greedy and is
  followed by a character that is no digit, so backtracking never gives a digit back:
  the matcher takes the whole run of digits.\<close>

definition php_fpm_at :: "string \<Rightarrow> string option" where
  "php_fpm_at s =
     (if take 3 s \<noteq> ''php'' then None
      else
        let a = takeWhile is_digit (drop 3 s); r = dropWhile is_digit (drop 3 s) in
        if a = [] \<or> take 1 r \<noteq> ''.'' then None
        else
          let b = takeWhile is_digit (drop 1 r); r' = dropWhile is_digit (drop 1 r) in
          if b = [] \<or> take 4 r' \<noteq> ''-fpm'' then None
          else Some (''php'' @ a @ ''.'' @ b @ ''-fpm''))"

text \<open>\<open>re.exec(s)\<close> without the \<open>g\<close> flag: try each start position from the left;
  the result is the text before the match, the match, and the text after it.\<close>

fun php_fpm_search :: "string \<Rightarrow> (string \<times> string \<times> string) option" where
  "php_fpm_search [] = None"
| "php_fpm_search (c # cs) =
     (case php_fpm_at (c # cs) of
        Some m \<Rightarrow> Some ([], m, drop (length m) (c # cs))
      | None \<Rightarrow> (case php_fpm_search cs of None \<Rightarrow> None | Some (p, m, q) \<Rightarrow> Some (c # p, m, q)))"

text \<open>The specification of a search: a decomposition around a word of the language
  with no such word starting further left.\<close>

definition leftmost_match :: "(string \<Rightarrow> bool) \<Rightarrow> string \<Rightarrow> string \<times> string \<times> string \<Rightarrow> bool" where
  "leftmost_match L s pmq \<longleftrightarrow>
     (case pmq of (p, m, q) \<Rightarrow>
       s = p @ m @ q \<and> L m \<and> (\<forall>p' m' q'. s = p' @ m' @ q' \<and> L m' \<longrightarrow> length p \<le> length p'))"

section \<open>Protecting, splitting and restoring\<close>

type_synonym matcher = "string \<Rightarrow> (string \<times> string \<times> string) option"

text \<open>\<open>servicesUsingDotRegExps\<close> (line 90).\<close>

definition service_dot_regexps :: "matcher list" where
  "service_dot_regexps = [php_fpm_search]"

text \<open>The loop of lines 94--102 with its index \<open>i\<close>: when the \<open>i\<close>-th regular
  expression matches, its match is stored at index \<open>i\<close> of
  \<open>serviceStringReplacements\<close> and its first occurrence in the string is replaced by
  \<open>$i\<close>.\<close>

fun protect :: "matcher list \<Rightarrow> nat \<Rightarrow> string \<Rightarrow> (nat \<rightharpoonup> string) \<Rightarrow> string \<times> (nat \<rightharpoonup> string)" where
  "protect [] i s r = (s, r)"
| "protect (re # res) i s r =
     (case re s of
        None \<Rightarrow> protect res (Suc i) s r
      | Some (_, m, _) \<Rightarrow>
          protect res (Suc i) (js_replace_first s m (CHR ''$'' # nat_to_decimal i)) (r(i \<mapsto> m)))"

text \<open>\<open>arg.match(/\$(\d)+/)\<close>: the leftmost \<open>$\<close> followed by a digit; the group
  is repeated greedily and keeps the last digit of the run.\<close>

fun last_digit :: "char \<Rightarrow> string \<Rightarrow> char" where
  "last_digit d [] = d"
| "last_digit d (c # cs) = (if is_digit c then last_digit c cs else d)"

fun placeholder_match :: "string \<Rightarrow> char option" where
  "placeholder_match [] = None"
| "placeholder_match (c # cs) =
     (case cs of
        [] \<Rightarrow> None
      | d # ds \<Rightarrow> if c = CHR ''$'' \<and> is_digit d then Some (last_digit d ds) else placeholder_match cs)"

definition digit_value :: "char \<Rightarrow> nat" where
  "digit_value d = of_char d - 48"

text \<open>The callback of lines 104--111. A match array of a regular expression with one
  group has two elements, so the test \<open>placeholderMatches.length > 1\<close> holds
  whenever there is a match; the restored value is the array element at the captured
  digit, \<open>undefined\<close> where none was stored.\<close>

definition restore_arg :: "(nat \<rightharpoonup> string) \<Rightarrow> string \<Rightarrow> string option" where
  "restore_arg r arg =
     (case placeholder_match arg of None \<Rightarrow> Some arg | Some d \<Rightarrow> r (digit_value d))"

text \<open>Lines 89--113: protect, split on \<open>.\<close>, restore, and \<open>shift\<close> the operation
  name off the front of the arguments.\<close>

definition decode_operation :: "string \<Rightarrow> string option \<times> string option list" where
  "decode_operation op =
     (let (s, r) = protect service_dot_regexps 0 op Map.empty;
          args = map (restore_arg r) (js_split CHR ''.'' s)
      in case args of [] \<Rightarrow> (None, []) | a # rest \<Rightarrow> (a, rest))"

section \<open>Lemmas of the matcher and the decoder\<close>

subsection \<open>The matcher against the language\<close>

lemma is_digit_simps [simp, decode_simps]:
  "\<not> is_digit CHR ''.''" "\<not> is_digit CHR ''-''" "\<not> is_digit CHR ''p''"
  "\<not> is_digit CHR ''$''" "is_digit CHR ''0''"
  by (simp_all add: is_digit_def)

lemma php_fpm_at_complete:
  assumes "php_fpm_lang m"
  shows "php_fpm_at (m @ r) = Some m"
proof -
  obtain a b where m: "m = ''php'' @ a @ ''.'' @ b @ ''-fpm''" and ne: "a \<noteq> []" "b \<noteq> []"
    and dig: "\<forall>c\<in>set a. is_digit c" "\<forall>c\<in>set b. is_digit c"
    using assms by (auto simp: php_fpm_lang_def)
  have d3: "drop 3 (m @ r) = a @ CHR ''.'' # b @ ''-fpm'' @ r" by (simp add: m)
  have tb: "takeWhile is_digit (b @ CHR ''-'' # ''fpm'' @ r) = b"
    and db: "dropWhile is_digit (b @ CHR ''-'' # ''fpm'' @ r) = ''-fpm'' @ r"
    using dig(2) by simp_all
  show ?thesis
    using dig(1) ne tb db by (simp add: php_fpm_at_def d3 Let_def) (simp add: m)
qed

lemma php_fpm_at_sound:
  assumes "php_fpm_at s = Some m"
  shows "php_fpm_lang m \<and> (\<exists>r. s = m @ r)"
proof -
  define a where "a = takeWhile is_digit (drop 3 s)"
  define r where "r = dropWhile is_digit (drop 3 s)"
  define b where "b = takeWhile is_digit (drop 1 r)"
  define r' where "r' = dropWhile is_digit (drop 1 r)"
  have g: "take 3 s = ''php''" "a \<noteq> []" "take 1 r = ''.''" "b \<noteq> []" "take 4 r' = ''-fpm''"
    and m: "m = ''php'' @ a @ ''.'' @ b @ ''-fpm''"
    using assms by (auto simp: php_fpm_at_def Let_def a_def r_def b_def r'_def split: if_splits)
  have "drop 3 s = a @ r" by (simp add: a_def r_def)
  with g(1) have s: "s = ''php'' @ a @ r" by (metis append_take_drop_id)
  have "drop 1 r = b @ r'" by (simp add: b_def r'_def)
  with g(3) have r: "r = ''.'' @ b @ r'" by (metis append_take_drop_id)
  from g(5) obtain u where r': "r' = ''-fpm'' @ u" by (metis append_take_drop_id)
  have "s = m @ u" using s r r' m by simp
  moreover have "\<forall>c\<in>set a. is_digit c" "\<forall>c\<in>set b. is_digit c"
    by (auto simp: a_def b_def dest: set_takeWhileD)
  ultimately show ?thesis
    using g m by (auto simp: php_fpm_lang_def)
qed

text \<open>At one position the language has at most one word: the greedy runs of digits
  leave nothing to choose.\<close>

lemma php_fpm_lang_prefix_unique:
  "php_fpm_lang m \<Longrightarrow> php_fpm_lang m' \<Longrightarrow> m @ r = m' @ r' \<Longrightarrow> m = m'"
  by (metis option.inject php_fpm_at_complete)

subsection \<open>The search against the leftmost-match specification\<close>

lemma php_fpm_search_Some:
  "php_fpm_search s = Some (p, m, q) \<Longrightarrow> s = p @ m @ q \<and> php_fpm_lang m"
proof (induction s arbitrary: p)
  case (Cons c cs)
  show ?case
  proof (cases "php_fpm_at (c # cs)")
    case None
    with Cons.prems obtain p0 where "php_fpm_search cs = Some (p0, m, q)" "p = c # p0"
      by (auto split: option.splits)
    with Cons.IH show ?thesis by simp
  next
    case (Some m0)
    with Cons.prems php_fpm_at_sound[OF Some] show ?thesis by auto
  qed
qed simp

lemma php_fpm_search_first:
  "php_fpm_search s = Some (p, m, q) \<Longrightarrow> s = p' @ m' @ q' \<Longrightarrow> php_fpm_lang m' \<Longrightarrow>
   length p \<le> length p'"
proof (induction s arbitrary: p p')
  case (Cons c cs)
  show ?case
  proof (cases "php_fpm_at (c # cs)")
    case None
    with Cons.prems(1) obtain p0 where p0: "php_fpm_search cs = Some (p0, m, q)" "p = c # p0"
      by (auto split: option.splits)
    show ?thesis
    proof (cases p')
      case Nil
      with Cons.prems(2,3) None show ?thesis by (simp add: php_fpm_at_complete)
    next
      case (Cons c' p'')
      with Cons.prems(2) have "cs = p'' @ m' @ q'" by simp
      from Cons.IH[OF p0(1) this Cons.prems(3)] p0(2) \<open>p' = c' # p''\<close> show ?thesis by simp
    qed
  next
    case (Some m0)
    with Cons.prems(1) show ?thesis by simp
  qed
qed simp

lemma php_fpm_search_None:
  "php_fpm_search s = None \<Longrightarrow> s = p @ m @ q \<Longrightarrow> \<not> php_fpm_lang m"
proof (induction s arbitrary: p)
  case Nil
  then show ?case by (auto simp: php_fpm_lang_def)
next
  case (Cons c cs)
  show ?case
  proof (cases p)
    case Nil
    show ?thesis
    proof
      assume "php_fpm_lang m"
      with Cons.prems(2) Nil have "php_fpm_at (c # cs) = Some m"
        by (metis append_Nil php_fpm_at_complete)
      with Cons.prems(1) show False by simp
    qed
  next
    case (Cons c' p')
    with Cons.prems Cons.IH[of p'] show ?thesis by (auto split: option.splits)
  qed
qed

lemma php_fpm_search_eqI:
  assumes "s = p @ m @ q" "php_fpm_lang m"
    and "\<And>p' m' q'. s = p' @ m' @ q' \<Longrightarrow> php_fpm_lang m' \<Longrightarrow> length p \<le> length p'"
  shows "php_fpm_search s = Some (p, m, q)"
proof (cases "php_fpm_search s")
  case None
  with php_fpm_search_None assms(1,2) show ?thesis by blast
next
  case (Some r)
  then obtain p0 m0 q0 where r: "php_fpm_search s = Some (p0, m0, q0)" by (cases r) auto
  with php_fpm_search_Some have s0: "s = p0 @ m0 @ q0" "php_fpm_lang m0" by blast+
  from php_fpm_search_first[OF r assms(1,2)] assms(3)[OF s0] have "length p0 = length p"
    by simp
  with s0(1) assms(1) have "p0 = p" "m0 @ q0 = m @ q" by (auto simp: append_eq_append_conv)
  moreover from this(2) have "m0 = m" using php_fpm_lang_prefix_unique s0(2) assms(2) by blast
  ultimately show ?thesis using r by simp
qed

subsection \<open>No match runs across a dot followed by a non-digit\<close>

text \<open>A word of the language holds exactly one dot, right after the first run of
  digits and right before the second. So a match that covers a dot of the string must
  continue with a digit after it.\<close>

lemma php_fpm_lang_dot_split:
  assumes "php_fpm_lang m"
  obtains P Q where "m = P @ CHR ''.'' # Q" "CHR ''.'' \<notin> set P" "CHR ''.'' \<notin> set Q"
    "Q \<noteq> []" "is_digit (hd Q)"
proof -
  obtain a b where m: "m = ''php'' @ a @ ''.'' @ b @ ''-fpm''" and "b \<noteq> []"
    and "\<forall>c\<in>set a. is_digit c" "\<forall>c\<in>set b. is_digit c"
    using assms by (auto simp: php_fpm_lang_def)
  moreover from this have "CHR ''.'' \<notin> set a" "CHR ''.'' \<notin> set b" by auto
  ultimately show ?thesis
    using that[of "''php'' @ a" "b @ ''-fpm''"] by (cases b) auto
qed

lemma php_fpm_not_across_dot:
  assumes "php_fpm_lang m" "m @ t = w @ CHR ''.'' # v" "length w < length m"
    and "v \<noteq> [] \<Longrightarrow> \<not> is_digit (hd v)"
  shows False
proof -
  obtain P Q where m: "m = P @ CHR ''.'' # Q" and nP: "CHR ''.'' \<notin> set P"
    and nQ: "CHR ''.'' \<notin> set Q" and Q: "Q \<noteq> []" "is_digit (hd Q)"
    using php_fpm_lang_dot_split[OF assms(1)] by blast
  show False
  proof (cases "CHR ''.'' \<in> set w")
    case False
    with assms(2) m nP have "Q @ t = v"
      using sep_prefix_unique[of "CHR ''.''" P w "Q @ t" v] by simp
    with Q assms(4) show False by (cases Q) auto
  next
    case True
    then obtain w1 w2 where w: "w = w1 @ CHR ''.'' # w2" "CHR ''.'' \<notin> set w1"
      by (auto dest: split_list_first)
    with assms(2) m nP have "P = w1" and eq: "Q @ t = w2 @ CHR ''.'' # v"
      using sep_prefix_unique[of "CHR ''.''" P w1 "Q @ t" "w2 @ CHR ''.'' # v"] by simp_all
    with assms(3) m w have "length w2 < length Q" by simp
    then have "take (Suc (length w2)) (Q @ t) = take (Suc (length w2)) Q" by simp
    with eq have "w2 @ ''.'' = take (Suc (length w2)) Q" by simp
    then have "CHR ''.'' \<in> set (take (Suc (length w2)) Q)" by (metis in_set_conv_decomp)
    with nQ show False by (auto dest: in_set_takeD)
  qed
qed

text \<open>The search in a string whose first match follows a dot: nothing before the dot
  matches, and a match starting before the dot would have to run across it into the
  word after it, which starts with a letter.\<close>

lemma php_fpm_search_after_dot:
  assumes u: "php_fpm_search u = None" and S: "php_fpm_lang S"
  shows "php_fpm_search (u @ CHR ''.'' # S @ R) = Some (u @ ''.'', S, R)"
proof (rule php_fpm_search_eqI)
  show "u @ CHR ''.'' # S @ R = (u @ ''.'') @ S @ R" by simp
  show "php_fpm_lang S" by (rule S)
next
  fix p' m' q'
  assume eq: "u @ CHR ''.'' # S @ R = p' @ m' @ q'" and m': "php_fpm_lang m'"
  have hdS: "S \<noteq> [] \<and> hd S = CHR ''p''" using S by (auto simp: php_fpm_lang_def)
  show "length (u @ ''.'') \<le> length p'"
  proof (rule ccontr)
    assume "\<not> length (u @ ''.'') \<le> length p'"
    then have le: "length p' \<le> length u" by simp
    define w where "w = drop (length p') u"
    from append_eq_prefix[OF le eq] have u_eq: "u = p' @ w"
      and mw: "m' @ q' = w @ CHR ''.'' # S @ R" by (simp_all add: w_def)
    show False
    proof (cases "length w < length m'")
      case True
      from php_fpm_not_across_dot[OF m' mw True] hdS show False by (cases S) auto
    next
      case False
      then have "length m' \<le> length w" by simp
      from append_eq_prefix[OF this mw[symmetric]] obtain w' where "w = m' @ w'" by blast
      with u_eq php_fpm_search_None[OF u] m' show False by blast
    qed
  qed
qed

text \<open>The language is decidable by the matcher itself.\<close>

lemma php_fpm_lang_code [code]: "php_fpm_lang w \<longleftrightarrow> php_fpm_at w = Some w"
  using php_fpm_at_complete[of w "[]"] php_fpm_at_sound[of w w] by auto

lemma php_fpm_lang_no_dollar: "php_fpm_lang w \<Longrightarrow> CHR ''$'' \<notin> set w"
proof
  assume "php_fpm_lang w" "CHR ''$'' \<in> set w"
  then obtain a b where "w = ''php'' @ a @ ''.'' @ b @ ''-fpm''"
    "\<forall>c\<in>set a. is_digit c" "\<forall>c\<in>set b. is_digit c" "CHR ''$'' \<in> set w"
    by (auto simp: php_fpm_lang_def)
  then show False by (auto dest: bspec[of _ _ "CHR ''$''"])
qed

subsection \<open>Protecting and restoring\<close>

lemma placeholder_match_skip:
  "c \<noteq> CHR ''$'' \<Longrightarrow> placeholder_match (c # cs) = placeholder_match cs"
  by (cases cs) simp_all

lemma placeholder_match_no_dollar: "CHR ''$'' \<notin> set w \<Longrightarrow> placeholder_match w = None"
proof (induction w)
  case (Cons c cs)
  then have c: "c \<noteq> CHR ''$''" and cs: "CHR ''$'' \<notin> set cs" by auto
  from placeholder_match_skip[OF c] Cons.IH[OF cs] show ?case by (rule trans)
qed simp

lemma restore_arg_plain [decode_simps]: "CHR ''$'' \<notin> set w \<Longrightarrow> restore_arg r w = Some w"
  by (simp add: restore_arg_def placeholder_match_no_dollar)

lemma restore_arg_zero [decode_simps]: "restore_arg r ''$0'' = r 0"
  by (simp add: restore_arg_def digit_value_def)

lemma nat_to_decimal_0 [decode_simps]: "nat_to_decimal 0 = ''0''"
  by (simp add: nat_to_decimal.simps digit_char_def)

lemma protect_service_dot_regexps [decode_simps]:
  "protect service_dot_regexps 0 s r =
     (case php_fpm_search s of
        None \<Rightarrow> (s, r)
      | Some (_, m, _) \<Rightarrow> (js_replace_first s m ''$0'', r(0 \<mapsto> m)))"
  by (simp add: service_dot_regexps_def decode_simps split: option.splits)

text \<open>The string \<open>replace\<close> of line 100 looks the matched text up again; it finds
  it at the position where the regular expression matched, since an earlier occurrence
  of the same text would have been an earlier match.\<close>

lemma js_replace_first_at_match:
  assumes a: "php_fpm_search s = Some (p, m, q)"
  shows "js_replace_first s m rep = p @ rep @ q"
proof -
  from php_fpm_search_Some[OF a] have s: "s = p @ m @ q" and L: "php_fpm_lang m" by auto
  have "split_first m s = Some (p, q)"
  proof (rule split_first_eqI[OF s])
    fix p' q'
    assume "s = p' @ m @ q'"
    from php_fpm_search_first[OF a this L] show "length p \<le> length p'" .
  qed
  then show ?thesis by (simp add: js_replace_first_def)
qed

lemma js_join_Cons_concat: "js_join sep (y # ys) = y @ concat (map (\<lambda>w. sep @ w) ys)"
  by (induction ys arbitrary: y) (simp_all add: js_join_Cons)

lemma decode_split_restore:
  assumes "protect service_dot_regexps 0 s Map.empty = (s', r)" "js_split CHR ''.'' s' = w # ws"
  shows "decode_operation s = (restore_arg r w, map (restore_arg r) ws)"
  using assms by (simp add: decode_operation_def)

lemma restore_args_plain:
  "\<forall>w\<in>set ws. CHR ''$'' \<notin> set w \<Longrightarrow> map (restore_arg r) ws = map Some ws"
  by (induction ws) (simp_all add: restore_arg_plain)

lemma js_join_dot_split:
  "js_join ''.'' (n # xs @ z # ys) =
     js_join ''.'' (n # xs) @ CHR ''.'' # z @ concat (map (\<lambda>w. ''.'' @ w) ys)"
  by (simp add: js_join_Cons_concat)

lemma placeholder_match_prefix:
  "CHR ''$'' \<notin> set u \<Longrightarrow> placeholder_match (u @ w) = placeholder_match w"
proof (induction u)
  case (Cons c cs)
  then have c: "c \<noteq> CHR ''$''" and cs: "CHR ''$'' \<notin> set cs" by auto
  have "placeholder_match ((c # cs) @ w) = placeholder_match (cs @ w)"
    using placeholder_match_skip[OF c] by simp
  with Cons.IH[OF cs] show ?case by simp
qed simp

lemma last_digit_is_digit: "is_digit d \<Longrightarrow> is_digit (last_digit d v)"
  by (induction d v rule: last_digit.induct) simp_all

lemma digit_value_zero_iff: "is_digit d \<Longrightarrow> digit_value d = 0 \<longleftrightarrow> d = CHR ''0''"
  by (auto simp: is_digit_def digit_value_def)

lemma restore_arg_placeholder_in_piece:
  assumes "CHR ''$'' \<notin> set u"
  shows "restore_arg [0 \<mapsto> S] (u @ ''$0'' @ v) =
    (if last_digit (CHR ''0'') v = CHR ''0'' then Some S else None)"
proof -
  have "placeholder_match (u @ ''$0'' @ v) = Some (last_digit (CHR ''0'') v)"
    using assms by (simp add: placeholder_match_prefix is_digit_def)
  moreover have "is_digit (last_digit (CHR ''0'') v)"
    by (rule last_digit_is_digit) (simp add: is_digit_def)
  ultimately show ?thesis
    by (simp add: restore_arg_def digit_value_zero_iff)
qed

text \<open>The rules that evaluate the decoder on a concrete operation string.\<close>

text \<open>The decoder on a string whose first protected service name follows some dot-free
  pieces: the protecting loop replaces that name by \<open>$0\<close> and the split sees the pieces.\<close>

lemma decode_first_protected:
  assumes S: "php_fpm_lang S" and before: "php_fpm_search (js_join ''.'' (n # xs)) = None"
    and nodot: "\<forall>w\<in>set (n # xs @ ys). CHR ''.'' \<notin> set w"
  shows "decode_operation (js_join ''.'' (n # xs @ S # ys)) =
    (restore_arg [0 \<mapsto> S] n, map (restore_arg [0 \<mapsto> S]) (xs @ ''$0'' # ys))"
proof -
  let ?u = "js_join ''.'' (n # xs)" and ?R = "concat (map (\<lambda>w. ''.'' @ w) ys)"
  have j: "js_join ''.'' (n # xs @ S # ys) = ?u @ CHR ''.'' # S @ ?R"
    and j0: "js_join ''.'' (n # xs @ ''$0'' # ys) = (?u @ ''.'') @ ''$0'' @ ?R"
    by (simp_all only: js_join_dot_split) simp
  have srch: "php_fpm_search (js_join ''.'' (n # xs @ S # ys)) = Some (?u @ ''.'', S, ?R)"
    unfolding j by (rule php_fpm_search_after_dot[OF before S])
  have prot: "protect service_dot_regexps 0 (js_join ''.'' (n # xs @ S # ys)) Map.empty =
      (js_join ''.'' (n # xs @ ''$0'' # ys), [0 \<mapsto> S])"
    by (simp only: protect_service_dot_regexps srch option.case prod.case
        js_replace_first_at_match[OF srch] j0)
  have "\<forall>w\<in>set (n # xs @ ''$0'' # ys). CHR ''.'' \<notin> set w"
    using nodot by simp
  then have "js_split CHR ''.'' (js_join ''.'' (n # xs @ ''$0'' # ys)) = n # xs @ ''$0'' # ys"
    by (intro js_split_join) simp_all
  from decode_split_restore[OF prot this] show ?thesis .
qed

lemmas decode_eval = decode_operation_def protect_service_dot_regexps php_fpm_at_def is_digit_def
  restore_arg_def digit_value_def js_replace_first_def

section \<open>Properties of the decoder\<close>

text \<open>C17. The matcher at the front of a string returns exactly the word of the
  language \<open>php\d+\.\d+-fpm\<close> that starts the string, when there is one: the
  function refines the regular expression's semantics.\<close>

theorem php_fpm_at_correct:
  "php_fpm_at s = Some m \<longleftrightarrow> php_fpm_lang m \<and> (\<exists>r. s = m @ r)"
  using php_fpm_at_sound[of s m] php_fpm_at_complete[of m] by auto

lemma php_fpm_at_correct_witness:
  "php_fpm_at ''php8.0-fpm.restart'' = Some ''php8.0-fpm'' \<and> php_fpm_lang ''php8.0-fpm''"
  using php_fpm_at_correct[of "''php8.0-fpm.restart''" "''php8.0-fpm''"]
  by (simp add: php_fpm_at_def is_digit_def)

text \<open>C6. \<open>re.test\<close>/\<open>re.match\<close> of line 96--98: the search returns a
  decomposition exactly when it is the leftmost match of the language, and returns
  nothing exactly when no substring is in the language.\<close>

theorem php_fpm_search_correct:
  "(php_fpm_search s = Some pmq \<longleftrightarrow> leftmost_match php_fpm_lang s pmq) \<and>
   (php_fpm_search s = None \<longleftrightarrow> (\<forall>p m q. s = p @ m @ q \<longrightarrow> \<not> php_fpm_lang m))"
proof (intro conjI)
  show "php_fpm_search s = Some pmq \<longleftrightarrow> leftmost_match php_fpm_lang s pmq"
  proof (cases pmq)
    case (fields p m q)
    show ?thesis
    proof
      assume a: "php_fpm_search s = Some pmq"
      then have a': "php_fpm_search s = Some (p, m, q)" by (simp add: fields)
      from php_fpm_search_Some[OF a'] have "s = p @ m @ q" "php_fpm_lang m" by simp_all
      moreover have "\<forall>p' m' q'. s = p' @ m' @ q' \<and> php_fpm_lang m' \<longrightarrow> length p \<le> length p'"
        using php_fpm_search_first[OF a'] by blast
      ultimately show "leftmost_match php_fpm_lang s pmq"
        by (simp add: leftmost_match_def fields)
    next
      assume "leftmost_match php_fpm_lang s pmq"
      then have lm: "s = p @ m @ q" "php_fpm_lang m"
        "\<forall>p' m' q'. s = p' @ m' @ q' \<and> php_fpm_lang m' \<longrightarrow> length p \<le> length p'"
        unfolding leftmost_match_def fields by simp_all
      then have "\<And>p' m' q'. s = p' @ m' @ q' \<Longrightarrow> php_fpm_lang m' \<Longrightarrow> length p \<le> length p'"
        by blast
      from php_fpm_search_eqI[OF lm(1,2) this] show "php_fpm_search s = Some pmq"
        by (simp add: fields)
    qed
  qed
  show "php_fpm_search s = None \<longleftrightarrow> (\<forall>p m q. s = p @ m @ q \<longrightarrow> \<not> php_fpm_lang m)"
  proof
    assume "php_fpm_search s = None"
    then show "\<forall>p m q. s = p @ m @ q \<longrightarrow> \<not> php_fpm_lang m"
      using php_fpm_search_None by blast
  next
    assume H: "\<forall>p m q. s = p @ m @ q \<longrightarrow> \<not> php_fpm_lang m"
    show "php_fpm_search s = None"
    proof (rule ccontr)
      assume "php_fpm_search s \<noteq> None"
      then obtain p m q where "php_fpm_search s = Some (p, m, q)" by auto
      from php_fpm_search_Some[OF this] H show False by blast
    qed
  qed
qed

lemma php_fpm_search_correct_witness:
  "leftmost_match php_fpm_lang ''service.php8.0-fpm.restart'' (''service.'', ''php8.0-fpm'', ''.restart'')"
  using php_fpm_search_correct[of "''service.php8.0-fpm.restart''" "(''service.'', ''php8.0-fpm'', ''.restart'')"]
  by (simp add: php_fpm_at_def is_digit_def)

text \<open>C16. The loop of lines 94--102 on the one regular expression of the program:
  when the operation string holds a protected service name, its leftmost occurrence is
  replaced by \<open>$0\<close> and the name is recorded at index 0; the string \<open>replace\<close>
  of line 100 hits the occurrence the regular expression found.\<close>

theorem protect_replaces_match:
  assumes "php_fpm_search s = Some (p, m, q)"
  shows "protect service_dot_regexps 0 s Map.empty = (p @ ''$0'' @ q, [0 \<mapsto> m])"
  using assms by (simp add: decode_simps js_replace_first_at_match)

lemma protect_replaces_match_witness:
  "protect service_dot_regexps 0 ''service.php8.0-fpm.restart'' Map.empty =
     (''service.$0.restart'', [0 \<mapsto> ''php8.0-fpm''])"
  using protect_replaces_match[of "''service.php8.0-fpm.restart''" "''service.''" "''php8.0-fpm''" "''.restart''"]
  by (simp add: php_fpm_at_def is_digit_def)

text \<open>C15. Without a protected service name and without a \<open>$\<close>, decoding is a plain
  split on \<open>.\<close>: the first piece is the operation, the others its parameters.\<close>

theorem decode_plain_split:
  assumes "php_fpm_search s = None" "CHR ''$'' \<notin> set s" "js_split CHR ''.'' s = n # ps"
  shows "decode_operation s = (Some n, map Some ps)"
proof -
  have nd: "\<forall>w\<in>set (n # ps). CHR ''$'' \<notin> set w"
    using assms(2,3) js_split_set[of _ "CHR ''.''" s] by (metis subsetD)
  have prot: "protect service_dot_regexps 0 s Map.empty = (s, Map.empty)"
    using assms(1) by (simp add: protect_service_dot_regexps)
  from decode_split_restore[OF prot assms(3)]
  have "decode_operation s = (restore_arg Map.empty n, map (restore_arg Map.empty) ps)" .
  also have "restore_arg Map.empty n = Some n"
    using nd by (intro restore_arg_plain) simp
  also have "map (restore_arg Map.empty) ps = map Some ps"
    using nd by (intro restore_args_plain) simp
  finally show ?thesis .
qed

lemma decode_plain_split_witness:
  "decode_operation ''cdn_purge.123'' = (Some ''cdn_purge'', [Some ''123''])"
  using decode_plain_split[of "''cdn_purge.123''" "''cdn_purge''" "[''123'']"]
  by (simp add: php_fpm_at_def)

text \<open>C3. Round trip of the decoder: an operation string made of dot-free pieces
  around one protected service name (the first such name of the string) decodes to the
  operation name and the pieces in order, the service name intact with its dot. The
  specification's example \<open>service.php8.0-fpm.restart\<close> is the witness.\<close>

theorem decode_protected_token:
  assumes S: "php_fpm_lang S"
    and plain: "\<forall>w\<in>set (n # xs @ ys). CHR ''.'' \<notin> set w \<and> CHR ''$'' \<notin> set w"
    and before: "php_fpm_search (js_join ''.'' (n # xs)) = None"
  shows "decode_operation (js_join ''.'' (n # xs @ S # ys)) = (Some n, map Some (xs @ S # ys))"
proof -
  have "\<forall>w\<in>set (n # xs @ ys). CHR ''.'' \<notin> set w"
    using plain by simp
  from decode_first_protected[OF S before this]
  have "decode_operation (js_join ''.'' (n # xs @ S # ys)) =
      (restore_arg [0 \<mapsto> S] n, map (restore_arg [0 \<mapsto> S]) (xs @ ''$0'' # ys))" .
  also have "restore_arg [0 \<mapsto> S] n = Some n"
    using plain by (intro restore_arg_plain) simp
  also have "map (restore_arg [0 \<mapsto> S]) (xs @ ''$0'' # ys) = map Some (xs @ S # ys)"
  proof -
    have "map (restore_arg [0 \<mapsto> S]) xs = map Some xs"
      "map (restore_arg [0 \<mapsto> S]) ys = map Some ys"
      using plain by (intro restore_args_plain; simp)+
    then show ?thesis by (simp only: map_append list.map restore_arg_zero fun_upd_same)
  qed
  finally show ?thesis .
qed

lemma decode_protected_token_witness:
  "decode_operation ''service.php8.0-fpm.restart'' =
     (Some ''service'', [Some ''php8.0-fpm'', Some ''restart''])"
  using decode_protected_token[of "''php8.0-fpm''" "''service''" "[]" "[''restart'']"]
  by (simp add: php_fpm_lang_code php_fpm_at_def is_digit_def)

text \<open>C19. A parameter that holds \<open>$\<close> and a digit is taken for a placeholder even
  when no service name was protected: the decoder returns \<open>undefined\<close> for it
  instead of failing, and the request is later sent without that field (see
  \<open>Run.thy\<close>). The specification (section 7) asks for a decode error here.\<close>

theorem decode_dollar_digit_undefined:
  assumes n: "CHR ''.'' \<notin> set n" "CHR ''$'' \<notin> set n"
    and w: "CHR ''.'' \<notin> set w" "placeholder_match w = Some d"
    and none: "php_fpm_search (n @ CHR ''.'' # w) = None"
  shows "decode_operation (n @ CHR ''.'' # w) = (Some n, [None])"
proof -
  have prot: "protect service_dot_regexps 0 (n @ CHR ''.'' # w) Map.empty = (n @ CHR ''.'' # w, Map.empty)"
    using none by (simp add: protect_service_dot_regexps)
  have "js_split CHR ''.'' (n @ CHR ''.'' # w) = [n, w]"
    using n(1) w(1) by (simp add: js_split_append_sep)
  moreover have "restore_arg Map.empty n = Some n" using n(2) by (rule restore_arg_plain)
  moreover have "restore_arg Map.empty w = None" using w(2) by (simp add: restore_arg_def)
  ultimately show ?thesis using decode_split_restore[OF prot] by simp
qed

lemma decode_dollar_digit_undefined_witness:
  "decode_operation ''varnish.$0'' = (Some ''varnish'', [None])"
  using decode_dollar_digit_undefined[of "''varnish''" "''$0''" "CHR ''0''"]
  by (simp add: php_fpm_at_def is_digit_def)

text \<open>C23. A protected service name inside a larger piece takes the whole piece:
  the piece holding the placeholder is replaced by the service name, so text before
  the name in that piece is lost (\<open>my-php8.0-fpm\<close> gives \<open>php8.0-fpm\<close>), and digits
  right after the name extend the placeholder, whose last digit then picks the index:
  unless it is 0 the parameter is \<open>undefined\<close> (\<open>php8.0-fpm5\<close>).\<close>

theorem decode_service_in_piece:
  assumes plain: "\<forall>w\<in>set (n # xs @ ys @ [u, v]). CHR ''.'' \<notin> set w \<and> CHR ''$'' \<notin> set w"
    and srch: "php_fpm_search (js_join ''.'' (n # xs @ (u @ S @ v) # ys)) =
       Some (js_join ''.'' (n # xs) @ ''.'' @ u, S, v @ concat (map (\<lambda>w. ''.'' @ w) ys))"
  shows "decode_operation (js_join ''.'' (n # xs @ (u @ S @ v) # ys)) =
    (Some n, map Some xs @ (if last_digit (CHR ''0'') v = CHR ''0'' then Some S else None) # map Some ys)"
proof -
  let ?R = "concat (map (\<lambda>w. ''.'' @ w) ys)"
  have j0: "js_join ''.'' (n # xs @ (u @ ''$0'' @ v) # ys) = (js_join ''.'' (n # xs) @ ''.'' @ u) @ ''$0'' @ v @ ?R"
    by (simp only: js_join_dot_split) simp
  have prot: "protect service_dot_regexps 0 (js_join ''.'' (n # xs @ (u @ S @ v) # ys)) Map.empty =
      (js_join ''.'' (n # xs @ (u @ ''$0'' @ v) # ys), [0 \<mapsto> S])"
    by (simp only: protect_service_dot_regexps srch option.case prod.case
        js_replace_first_at_match[OF srch] j0)
  have "\<forall>w\<in>set (n # xs @ (u @ ''$0'' @ v) # ys). CHR ''.'' \<notin> set w"
    using plain by simp
  then have "js_split CHR ''.'' (js_join ''.'' (n # xs @ (u @ ''$0'' @ v) # ys)) = n # xs @ (u @ ''$0'' @ v) # ys"
    by (intro js_split_join) simp_all
  from decode_split_restore[OF prot this]
  have "decode_operation (js_join ''.'' (n # xs @ (u @ S @ v) # ys)) =
      (restore_arg [0 \<mapsto> S] n, map (restore_arg [0 \<mapsto> S]) (xs @ (u @ ''$0'' @ v) # ys))" .
  also have "restore_arg [0 \<mapsto> S] n = Some n"
    using plain by (intro restore_arg_plain) simp
  also have "map (restore_arg [0 \<mapsto> S]) (xs @ (u @ ''$0'' @ v) # ys) =
      map Some xs @ (if last_digit (CHR ''0'') v = CHR ''0'' then Some S else None) # map Some ys"
  proof -
    have "map (restore_arg [0 \<mapsto> S]) xs = map Some xs"
      "map (restore_arg [0 \<mapsto> S]) ys = map Some ys"
      using plain by (intro restore_args_plain; simp)+
    moreover have u: "CHR ''$'' \<notin> set u" using plain by simp
    ultimately show ?thesis by (simp only: map_append list.map restore_arg_placeholder_in_piece[OF u])
  qed
  finally show ?thesis .
qed

lemma decode_service_in_piece_witness:
  "decode_operation ''service.my-php8.0-fpm.restart'' = (Some ''service'', [Some ''php8.0-fpm'', Some ''restart'']) \<and>
   decode_operation ''service.php8.0-fpm5.restart'' = (Some ''service'', [None, Some ''restart''])"
  using decode_service_in_piece[of "''service''" "[]" "[''restart'']" "''my-''" "[]" "''php8.0-fpm''"]
    decode_service_in_piece[of "''service''" "[]" "[''restart'']" "[]" "''5''" "''php8.0-fpm''"]
  by (simp add: decode_eval)

text \<open>C31. A literal \<open>$0\<close> aliases the protected service name: when the operation has
  a protected service name, every later parameter that is exactly \<open>$0\<close> is restored
  from the replacement table as that service name (line 106 restores any piece matching
  \<open>/\$(\d)+/\<close>, not only the placeholder the code inserted).\<close>

theorem decode_dollar_zero_aliases:
  assumes S: "php_fpm_lang S" and before: "php_fpm_search (js_join ''.'' (n # xs)) = None"
    and plain: "\<forall>w\<in>set (n # xs). CHR ''.'' \<notin> set w \<and> CHR ''$'' \<notin> set w"
    and later: "\<forall>w\<in>set ys. CHR ''.'' \<notin> set w \<and> (CHR ''$'' \<notin> set w \<or> w = ''$0'')"
  shows "decode_operation (js_join ''.'' (n # xs @ S # ys)) =
    (Some n, map Some xs @ Some S # map (\<lambda>w. if w = ''$0'' then Some S else Some w) ys)"
proof -
  have "\<forall>w\<in>set (n # xs). CHR ''.'' \<notin> set w" using plain by blast
  moreover have "\<forall>w\<in>set ys. CHR ''.'' \<notin> set w" using later by blast
  ultimately have "\<forall>w\<in>set (n # xs @ ys). CHR ''.'' \<notin> set w" by (simp add: ball_Un)
  note d = decode_first_protected[OF S before this]
  have "\<forall>w\<in>set (n # xs). CHR ''$'' \<notin> set w" using plain by blast
  then have n: "restore_arg [0 \<mapsto> S] n = Some n" and x: "map (restore_arg [0 \<mapsto> S]) xs = map Some xs"
    by (simp_all add: restore_arg_plain restore_args_plain)
  have y: "restore_arg [0 \<mapsto> S] w = (if w = ''$0'' then Some S else Some w)" if "w \<in> set ys" for w
  proof (cases "w = ''$0''")
    case True
    then show ?thesis by (simp only: restore_arg_zero fun_upd_same refl if_True)
  next
    case False
    with later that have "CHR ''$'' \<notin> set w" by blast
    with False show ?thesis by (simp add: restore_arg_plain)
  qed
  have "map (restore_arg [0 \<mapsto> S]) ys = map (\<lambda>w. if w = ''$0'' then Some S else Some w) ys"
    using y by (rule map_cong[OF refl])
  with d n x show ?thesis by (simp only: restore_arg_zero fun_upd_same map_append list.map)
qed

lemma decode_dollar_zero_aliases_witness:
  "decode_operation ''service.php8.0-fpm.$0'' =
     (Some ''service'', [Some ''php8.0-fpm'', Some ''php8.0-fpm''])"
  using decode_dollar_zero_aliases[of "''php8.0-fpm''" "''service''" "[]" "[''$0'']"]
  by (simp add: php_fpm_lang_code php_fpm_at_def is_digit_def)



end
