(* ===== verification/Registry.thy ===== *)
theory Registry
  imports JsRuntime
begin

text \<open>
  The endpoint registry, \<open>supportedEndpoints\<close> of \<open>src/index.js\<close> (lines 6--26):
  a plain object from operation names to \<open>{endpoint, params}\<close>, and its lookup
  \<open>supportedEndpoints[operation]\<close> (line 114). The lookup is a JavaScript property
  read, so besides the three own keys it also finds the properties every object
  inherits from \<open>Object.prototype\<close>; those are modelled as the entry \<open>Inherited\<close>.
  An \<open>undefined\<close> operation is looked up under the key \<open>''undefined''\<close>.
\<close>

record endpoint_config =
  endpoint :: string
  params :: "string list"

definition supported_endpoints :: "(string \<times> endpoint_config) list" where
  "supported_endpoints =
     [(''varnish'', \<lparr>endpoint = ''/service/varnish'', params = [''action'']\<rparr>),
      (''service'', \<lparr>endpoint = ''/service/state'', params = [''service'', ''state'']\<rparr>),
      (''cdn_purge'', \<lparr>endpoint = ''/app/cdn/purge'', params = [''app_id'']\<rparr>)]"

text \<open>The properties of \<open>Object.prototype\<close> in Node.js: each is a function or, for
  \<open>__proto__\<close>, the prototype object itself; all are truthy and none has a
  \<open>params\<close> property.\<close>

definition object_prototype_keys :: "string list" where
  "object_prototype_keys =
     [''constructor'', ''__defineGetter__'', ''__defineSetter__'', ''hasOwnProperty'',
      ''__lookupGetter__'', ''__lookupSetter__'', ''isPrototypeOf'',
      ''propertyIsEnumerable'', ''toString'', ''valueOf'', ''__proto__'', ''toLocaleString'']"

datatype registry_entry =
    Own endpoint_config
  | Inherited string
  | Absent

text \<open>The property key of a value that is a string or \<open>undefined\<close>.\<close>

definition js_key :: "string option \<Rightarrow> string" where
  "js_key op = (case op of None \<Rightarrow> ''undefined'' | Some s \<Rightarrow> s)"

definition lookup_endpoint :: "string option \<Rightarrow> registry_entry" where
  "lookup_endpoint op =
     (let k = js_key op in
      case map_of supported_endpoints k of
        Some c \<Rightarrow> Own c
      | None \<Rightarrow> if k \<in> set object_prototype_keys then Inherited k else Absent)"

text \<open>\<open>!endpointConfig\<close>: only a missing property is falsy.\<close>

primrec entry_found :: "registry_entry \<Rightarrow> bool" where
  "entry_found (Own c) = True"
| "entry_found (Inherited k) = True"
| "entry_found Absent = False"

text \<open>\<open>endpointConfig.params\<close>: \<open>undefined\<close> for an inherited property.\<close>

primrec entry_params :: "registry_entry \<Rightarrow> string list option" where
  "entry_params (Own c) = Some (params c)"
| "entry_params (Inherited k) = None"
| "entry_params Absent = None"

subsection \<open>Well-formedness of the registry\<close>

text \<open>What the dispatcher needs of every entry: the operation names are distinct, and
  each entry declares at least one parameter, no two alike, none of them the fixed
  field \<open>server_id\<close>, and an endpoint path that starts with \<open>/\<close>.\<close>

definition config_wf :: "endpoint_config \<Rightarrow> bool" where
  "config_wf c \<longleftrightarrow>
     params c \<noteq> [] \<and> distinct (params c) \<and> ''server_id'' \<notin> set (params c) \<and>
     take 1 (endpoint c) = ''/''"

definition registry_wf :: "(string \<times> endpoint_config) list \<Rightarrow> bool" where
  "registry_wf r \<longleftrightarrow> distinct (map fst r) \<and> (\<forall>(k, c)\<in>set r. config_wf c)"

lemma lookup_endpoint_Own_iff:
  "lookup_endpoint op = Own c \<longleftrightarrow> map_of supported_endpoints (js_key op) = Some c"
  by (auto simp: lookup_endpoint_def Let_def split: option.splits)

lemma lookup_endpoint_Absent_iff:
  "lookup_endpoint op = Absent \<longleftrightarrow>
     js_key op \<notin> fst ` set supported_endpoints \<and> js_key op \<notin> set object_prototype_keys"
  by (auto simp: lookup_endpoint_def Let_def map_of_eq_None_iff split: option.splits
      dest: map_of_SomeD intro: rev_image_eqI)

lemma lookup_endpoint_inherited:
  "js_key op \<in> set object_prototype_keys \<Longrightarrow> lookup_endpoint op = Inherited (js_key op)"
  by (auto simp: lookup_endpoint_def object_prototype_keys_def supported_endpoints_def)

lemmas registry_eval = lookup_endpoint_def supported_endpoints_def object_prototype_keys_def js_key_def

lemma registry_wf_supported_endpoints: "registry_wf supported_endpoints"
  by (simp add: registry_wf_def config_wf_def supported_endpoints_def)

lemma registry_wf_lookup:
  "registry_wf r \<Longrightarrow> map_of r k = Some c \<Longrightarrow> config_wf c"
  unfolding registry_wf_def by (auto dest: map_of_SomeD)

lemma lookup_endpoint_Own_config_wf: "lookup_endpoint op = Own cfg \<Longrightarrow> config_wf cfg"
  using registry_wf_lookup[OF registry_wf_supported_endpoints] by (simp add: lookup_endpoint_Own_iff)

section \<open>Properties of the registry\<close>

text \<open>C18. Every entry the lookup of line 114 returns as the registry's own is
  well formed (see \<open>config_wf\<close>) and was found under a string key: the lookup of
  \<open>undefined\<close> never yields an own entry.\<close>

theorem lookup_endpoint_Own_wf:
  assumes "lookup_endpoint op = Own cfg"
  shows "config_wf cfg \<and> (\<exists>k. op = Some k \<and> (k, cfg) \<in> set supported_endpoints)"
proof -
  have m: "map_of supported_endpoints (js_key op) = Some cfg"
    using assms by (simp add: lookup_endpoint_Own_iff)
  then have "js_key op \<noteq> ''undefined''"
    by (auto simp: supported_endpoints_def)
  then obtain k where "op = Some k" "js_key op = k"
    by (cases op) (simp_all add: js_key_def)
  with m registry_wf_lookup[OF registry_wf_supported_endpoints m] show ?thesis
    by (auto dest: map_of_SomeD)
qed

lemma lookup_endpoint_Own_wf_witness:
  "config_wf \<lparr>endpoint = ''/service/state'', params = [''service'', ''state'']\<rparr>"
  using lookup_endpoint_Own_wf[of "Some ''service''" "\<lparr>endpoint = ''/service/state'', params = [''service'', ''state'']\<rparr>"]
  by (simp add: registry_eval)

end
