(* ===== verification/Validator.thy ===== *)
theory Validator
  imports Registry
begin

text \<open>
  The parameter validator, \<open>validateParameters\<close> (lines 82--84), as it is called on
  line 118 with \<open>endpointConfig.params\<close> and the decoded arguments. Its first
  parameter is named \<open>endpointConfig\<close> but receives the parameter-name array, whose
  \<open>Object.keys\<close> are its indices; for an inherited registry entry the array is
  \<open>undefined\<close> and \<open>Object.keys\<close> throws.
\<close>

text \<open>\<open>Object.keys\<close> of a dense array: its indices as strings.\<close>

definition object_keys :: "'a list \<Rightarrow> string list" where
  "object_keys xs = map nat_to_decimal [0..<length xs]"

definition keys_of_undefined :: js_error where
  "keys_of_undefined = TypeError ''Cannot convert undefined or null to object''"

definition validate_parameters :: "string list option \<Rightarrow> 'a list \<Rightarrow> js_error + bool" where
  "validate_parameters cfg ps =
     (case cfg of
        None \<Rightarrow> Inl keys_of_undefined
      | Some names \<Rightarrow> Inr (length (object_keys names) = length ps))"

lemma validate_parameters_Some [simp]:
  "validate_parameters (Some names) ps = Inr (length names = length ps)"
  by (simp add: validate_parameters_def object_keys_def)

lemma validate_parameters_None [simp]: "validate_parameters None ps = Inl keys_of_undefined"
  by (simp add: validate_parameters_def)

end
