(* ===== verification/ActionsCore.thy ===== *)
theory ActionsCore
  imports JsRuntime
begin

text \<open>
  The environment of the action: the parts of \<open>@actions/core\<close> and node-fetch
  that \<open>src/index.js\<close> calls, as operations on one state record. They are library
  code and are modelled by their observable effect only:
  \<^item> \<open>core.getInput(name)\<close> reads the input \<open>name\<close> (\<open>inputs\<close>, read-only);
  \<^item> \<open>core.info(msg)\<close> appends a log line, \<open>core.setOutput(k, v)\<close> an output,
    \<open>core.setFailed(msg)\<close> marks the run failed with its message;
  \<^item> \<open>fetch(url, options)\<close> appends the request to \<open>requests\<close> and returns what the
    server (the parameter \<open>net\<close>, a function of the request) answers; \<open>res.json()\<close>
    parses the body or rejects.
  The list \<open>requests\<close> is the trace of network calls, in the order they are made.
\<close>

record fetch_options =
  http_method :: string
  body :: string
  headers :: "(string \<times> string) list"

type_synonym http_request = "string \<times> fetch_options"

text \<open>What the server answers to one request: no answer at all, or a status code and a
  body that is either JSON or some other text (the parser's message kept as \<open>Inl\<close>).\<close>

datatype fetch_outcome =
    Network_error string
  | Response int "string + json"

type_synonym transport = "http_request \<Rightarrow> fetch_outcome"

record action_state =
  inputs :: "string \<Rightarrow> string"
  requests :: "http_request list"
  logs :: "string list"
  outputs :: "(string \<times> string) list"
  failed :: "string option"

type_synonym 'a action = "(action_state, js_error, 'a) act"

definition get_input :: "string \<Rightarrow> string action" where
  "get_input k st = (Inr (inputs st k), st)"

definition core_info :: "string \<Rightarrow> unit action" where
  "core_info msg st = (Inr (), st\<lparr>logs := logs st @ [msg]\<rparr>)"

definition set_output :: "string \<Rightarrow> string \<Rightarrow> unit action" where
  "set_output k v st = (Inr (), st\<lparr>outputs := outputs st @ [(k, v)]\<rparr>)"

definition set_failed :: "string \<Rightarrow> action_state \<Rightarrow> action_state" where
  "set_failed msg st = st\<lparr>failed := Some msg\<rparr>"

text \<open>\<open>fetch(url, options)\<close>: the request is made whatever the answer; a network
  failure rejects with a \<open>FetchError\<close>.\<close>

definition fetch :: "transport \<Rightarrow> string \<Rightarrow> fetch_options \<Rightarrow> (int \<times> (string + json)) action" where
  "fetch net url opts st =
     (let st' = st\<lparr>requests := requests st @ [(url, opts)]\<rparr> in
      case net (url, opts) of
        Network_error m \<Rightarrow> (Inl (FetchError (''request to '' @ url @ '' failed, reason: '' @ m)), st')
      | Response status b \<Rightarrow> (Inr (status, b), st'))"

text \<open>\<open>res.json()\<close> of node-fetch 2: a body that is not JSON rejects with an
  \<open>invalid-json\<close> \<open>FetchError\<close>.\<close>

definition response_json :: "string \<Rightarrow> string + json \<Rightarrow> json action" where
  "response_json url b =
     act_lift (case b of
        Inl m \<Rightarrow> Inl (FetchError (''invalid json response body at '' @ url @ '' reason: '' @ m))
      | Inr j \<Rightarrow> Inr j)"

lemma get_input_apply [simp, act_simps]: "get_input k st = (Inr (inputs st k), st)"
  by (simp add: get_input_def)

lemma core_info_apply [simp, act_simps]:
  "core_info msg st = (Inr (), st\<lparr>logs := logs st @ [msg]\<rparr>)"
  by (simp add: core_info_def)

lemma set_output_apply [simp, act_simps]:
  "set_output k v st = (Inr (), st\<lparr>outputs := outputs st @ [(k, v)]\<rparr>)"
  by (simp add: set_output_def)

lemma fetch_requests: "fetch net url opts st = (r, st') \<Longrightarrow> requests st' = requests st @ [(url, opts)]"
  by (auto simp: fetch_def Let_def split: fetch_outcome.splits)

lemma fetch_frame:
  "fetch net url opts st = (r, st') \<Longrightarrow>
     inputs st' = inputs st \<and> logs st' = logs st \<and> outputs st' = outputs st \<and> failed st' = failed st"
  by (auto simp: fetch_def Let_def split: fetch_outcome.splits)

end
