(* ===== verification/Auth.thy ===== *)
theory Auth
  imports ActionsCore
begin

text \<open>
  The authenticator: \<open>getOauthToken\<close> (lines 29--44), one POST of the e-mail and API
  key to the token endpoint whose body is parsed as JSON whatever the status code, and
  the checks of lines 123--129 on the parsed token, here \<open>check_token\<close>. The check
  of line 127 reads \<open>token.access_token.legnth\<close>, a misspelt property: it is
  \<open>undefined\<close> on every string, so \<open>== 0\<close> is false there and only the truthiness
  test \<open>!token.access_token\<close> decides.
\<close>

definition cloudways_api_url :: string where
  "cloudways_api_url = ''https://api.cloudways.com/api/v1''"

definition oauth_url :: string where
  "oauth_url = cloudways_api_url @ ''/oauth/access_token''"

definition oauth_options :: "string \<Rightarrow> string \<Rightarrow> fetch_options" where
  "oauth_options email key =
     \<lparr>http_method = ''POST'',
      body = json_stringify (JObj [(''email'', JStr email), (''api_key'', JStr key)]),
      headers = [(''Content-Type'', ''application/json'')]\<rparr>"

text \<open>The one request \<open>getOauthToken\<close> makes, from the inputs of the state.\<close>

definition token_request :: "action_state \<Rightarrow> http_request" where
  "token_request st = (oauth_url, oauth_options (inputs st ''email'') (inputs st ''api-key''))"

definition get_oauth_token :: "transport \<Rightarrow> json action" where
  "get_oauth_token net =
     act_bind (get_input ''email'') (\<lambda>email.
     act_bind (get_input ''api-key'') (\<lambda>key.
     act_bind (fetch net oauth_url (oauth_options email key)) (\<lambda>(status, b).
     response_json oauth_url b)))"

definition token_missing :: js_error where
  "token_missing = Error ''Unable to retrieve access token from Cloudways.''"

text \<open>Lines 123--129. A truthy \<open>error\<close> field throws its \<open>error_description\<close>;
  otherwise the token is the \<open>access_token\<close> field, which must be truthy and whose
  \<open>legnth\<close> must not be loosely equal to 0. Reading a field of \<open>null\<close> throws.\<close>

definition check_token :: "json \<Rightarrow> js_error + json" where
  "check_token token =
     (case get_prop token ''error'' of
        Inl e \<Rightarrow> Inl e
      | Inr err \<Rightarrow>
          if js_truthy err then
            (case get_prop token ''error_description'' of
               Inl e \<Rightarrow> Inl e
             | Inr d \<Rightarrow> Inl (Error (error_arg d)))
          else
            (case get_prop token ''access_token'' of
               Inl e \<Rightarrow> Inl e
             | Inr None \<Rightarrow> Inl token_missing
             | Inr (Some a) \<Rightarrow>
                 if \<not> js_truthy (Some a) then Inl token_missing
                 else
                   (case get_prop a ''legnth'' of
                      Inl e \<Rightarrow> Inl e
                    | Inr l \<Rightarrow> if js_loose_eq_zero l then Inl token_missing else Inr a)))"

lemma get_oauth_token_apply:
  "get_oauth_token net st =
     (case net (token_request st) of
        Network_error m \<Rightarrow> (Inl (FetchError (''request to '' @ oauth_url @ '' failed, reason: '' @ m)), st')
      | Response status (Inl m) \<Rightarrow>
          (Inl (FetchError (''invalid json response body at '' @ oauth_url @ '' reason: '' @ m)), st')
      | Response status (Inr j) \<Rightarrow> (Inr j, st'))"
  if "st' = st\<lparr>requests := requests st @ [token_request st]\<rparr>"
  using that
  by (simp add: get_oauth_token_def token_request_def act_bind_apply fetch_def response_json_def Let_def
      split: fetch_outcome.splits sum.splits)

section \<open>Properties of the token check\<close>

text \<open>C13. A token answer whose \<open>error\<close> field is truthy is rejected with the
  message of its \<open>error_description\<close> (the empty message when that field is
  missing), whatever else it holds.\<close>

theorem check_token_error_field:
  assumes "js_truthy (map_of (rev fs) ''error'')"
  shows "check_token (JObj fs) = Inl (Error (error_arg (map_of (rev fs) ''error_description'')))"
  using assms by (simp add: check_token_def get_prop_def)

lemma check_token_error_field_witness:
  "check_token (JObj [(''error'', JBool True), (''error_description'', JStr ''Invalid credentials'')]) =
     Inl (Error ''Invalid credentials'')"
  using check_token_error_field[of "[(''error'', JBool True), (''error_description'', JStr ''Invalid credentials'')]"]
  by (simp add: error_arg_def)

text \<open>C14. The misspelt \<open>legnth\<close> test of line 127 never fires on a string: an
  answer without a truthy \<open>error\<close> whose \<open>access_token\<close> is a string is accepted
  exactly when that string is non-empty, and the token passed on is that string.\<close>

theorem check_token_string_token:
  assumes "\<not> js_truthy (map_of (rev fs) ''error'')" "map_of (rev fs) ''access_token'' = Some (JStr s)"
  shows "check_token (JObj fs) = (if s = [] then Inl token_missing else Inr (JStr s))"
  using assms by (simp add: check_token_def get_prop_def)

lemma check_token_string_token_witness:
  "check_token (JObj [(''access_token'', JStr ''0'')]) = Inr (JStr ''0'') \<and>
   check_token (JObj [(''error'', JBool False), (''access_token'', JStr [])]) = Inl token_missing"
  using check_token_string_token[of "[(''access_token'', JStr ''0'')]" "''0''"]
    check_token_string_token[of "[(''error'', JBool False), (''access_token'', JStr [])]" "[]"]
  by simp

text \<open>The checks look at the type of the token nowhere: a truthy number, \<open>true\<close>, an
  array or an object without a \<open>legnth\<close> property passes them as it is.\<close>

lemma check_token_non_string:
  assumes "\<not> js_truthy (map_of (rev fs) ''error'')" "map_of (rev fs) ''access_token'' = Some a"
    and "(\<exists>n. a = JNum n \<and> n \<noteq> 0) \<or> a = JBool True \<or> (\<exists>xs. a = JArr xs) \<or>
         (\<exists>gs. a = JObj gs \<and> map_of (rev gs) ''legnth'' = None)"
  shows "check_token (JObj fs) = Inr a"
  using assms by (auto simp: check_token_def get_prop_def)

text \<open>An answer parsed as \<open>null\<close> makes line 123 throw a \<open>TypeError\<close> on the read
  of \<open>token.error\<close>, which becomes the failure message of the run.\<close>

theorem check_token_null:
  "check_token JNull = Inl (TypeError (''Cannot read properties of null (reading '' @ squote @ ''error'' @ squote @ '')''))"
  by (simp add: check_token_def get_prop_def)

text \<open>C22. The credentials reach the token endpoint intact: the body of the token
  request is \<open>{"email":\<close> followed by a JSON string that a JSON parser reads back as
  exactly the e-mail input, then \<open>,"api_key":\<close> and a string read back as exactly the
  API key, whatever characters (quotes, backslashes, control characters) they hold.\<close>

theorem token_request_body_credentials:
  "\<exists>r. body (snd (token_request st)) = ''{\"email\":'' @ r \<and>
     json_parse_string r = Some (inputs st ''email'', '',\"api_key\":'' @ json_quote (inputs st ''api-key'') @ ''}'') \<and>
     json_parse_string (json_quote (inputs st ''api-key'') @ ''}'') = Some (inputs st ''api-key'', ''}'')"
proof -
  have q: "json_quote ''email'' = ''\"email\"''" "json_quote ''api_key'' = ''\"api_key\"''"
    by (simp_all add: json_quote_def json_escape_char_def)
  show ?thesis
    by (rule exI[of _ "json_quote (inputs st ''email'') @ '',\"api_key\":'' @ json_quote (inputs st ''api-key'') @ ''}''"])
      (simp add: token_request_def oauth_options_def q json_parse_quote)
qed

end
