(* ===== verification/JsonRead.thy ===== *)
theory JsonRead
  imports JsRuntime
begin

text \<open>
  The receiving side of the requests: how the Cloudways API, a JSON parser, reads a
  body that is a flat object of strings. \<open>json_members\<close> reads the members after
  the opening brace with \<open>json_parse_string\<close> (JsRuntime) for keys and values; it
  recurses on the text after a member, which is shorter, so its termination measure is
  the length of the input. This is the server's parser, not code of the program; it
  lets the properties of the dispatcher say what the endpoint receives.
\<close>

function json_members :: "string \<Rightarrow> ((string \<times> string) list \<times> string) option" where
  "json_members s =
     (case json_parse_string s of
        Some (k, c # r) \<Rightarrow>
          if c \<noteq> CHR '':'' then None
          else (case json_parse_string r of
                  Some (v, d # r') \<Rightarrow>
                    if d = CHR '','' then map_option (\<lambda>(fs, rest). ((k, v) # fs, rest)) (json_members r')
                    else if d = CHR ''}'' then Some ([(k, v)], r')
                    else None
                | _ \<Rightarrow> None)
      | _ \<Rightarrow> None)"
  by pat_completeness auto
termination
  by (relation "measure length") (auto dest!: json_parse_string_shorter)

declare json_members.simps [simp del]

definition json_read_flat_object :: "string \<Rightarrow> ((string \<times> string) list \<times> string) option" where
  "json_read_flat_object s =
     (case s of
        c # r \<Rightarrow> if c \<noteq> CHR ''{'' then None
                 else (case r of d # r' \<Rightarrow> if d = CHR ''}'' then Some ([], r') else json_members r
                       | [] \<Rightarrow> None)
      | [] \<Rightarrow> None)"

text \<open>One member \<open>"k":"v"\<close> as \<open>JSON.stringify\<close> prints it.\<close>

abbreviation json_member_text :: "string \<times> string \<Rightarrow> string" where
  "json_member_text kv \<equiv> json_quote (fst kv) @ '':'' @ json_quote (snd kv)"

lemma json_members_fields:
  "fs \<noteq> [] \<Longrightarrow> json_members (js_join '','' (map json_member_text fs) @ ''}'' @ rest) = Some (fs, rest)"
proof (induction fs)
  case (Cons kv fs)
  obtain k v where kv: "kv = (k, v)" by fastforce
  show ?case
  proof (cases "fs = []")
    case True
    then show ?thesis
      by (simp add: kv json_members.simps json_parse_quote[of k "CHR '':'' # _", simplified]
          json_parse_quote[of v "CHR ''}'' # _", simplified])
  next
    case False
    then have j: "js_join '','' (map json_member_text (kv # fs)) =
        json_quote k @ '':'' @ json_quote v @ '','' @ js_join '','' (map json_member_text fs)"
      by (cases fs) (simp_all add: kv)
    show ?thesis
      using Cons.IH[OF False]
      by (simp only: j append_assoc) (simp add: kv json_members.simps[of "json_quote k @ _"]
          json_parse_quote[of k "CHR '':'' # _", simplified] json_parse_quote[of v "CHR '','' # _", simplified])
  qed
qed simp

lemma json_read_stringify_flat:
  "json_read_flat_object (json_stringify (JObj (map (\<lambda>(k, v). (k, JStr v)) fs)) @ rest) = Some (fs, rest)"
proof (cases fs)
  case Nil
  then show ?thesis by (simp add: json_read_flat_object_def)
next
  case (Cons kv fs')
  have m: "map (\<lambda>(k, v). json_quote k @ '':'' @ json_stringify v) (map (\<lambda>(k, v). (k, JStr v)) fs) =
      map json_member_text fs"
    by (induction fs) auto
  have body: "json_stringify (JObj (map (\<lambda>(k, v). (k, JStr v)) fs)) @ rest =
      CHR ''{'' # (js_join '','' (map json_member_text fs) @ ''}'' @ rest)"
    by (simp only: json_stringify.simps m) simp
  obtain t where t: "js_join '','' (map json_member_text fs) @ ''}'' @ rest = CHR 0x22 # t"
    using Cons by (cases fs') (auto simp: json_quote_def)
  have "json_read_flat_object (CHR ''{'' # (js_join '','' (map json_member_text fs) @ ''}'' @ rest)) =
      json_members (js_join '','' (map json_member_text fs) @ ''}'' @ rest)"
    using t by (simp add: json_read_flat_object_def)
  moreover have "json_members (js_join '','' (map json_member_text fs) @ ''}'' @ rest) = Some (fs, rest)"
    using Cons by (intro json_members_fields) simp
  ultimately show ?thesis by (simp only: body)
qed

end
