(* ===== verification/Dispatch.thy ===== *)
theory Dispatch
  imports Auth Registry JsonRead
begin

text \<open>
  The command dispatcher: \<open>optionsWithAuth\<close> (lines 47--56) and \<open>command\<close>
  (lines 58--80). The request body is a JavaScript object built by assignment: first
  \<open>server_id\<close>, then one property per declared parameter name, in declaration order,
  each taking \<open>params.shift()\<close>. An object is a list of properties in insertion order
  whose values are strings or \<open>undefined\<close>; \<open>JSON.stringify\<close> leaves the
  \<open>undefined\<close> ones out. (JavaScript would list integer-like keys first; no key of
  the program is one.)
\<close>

type_synonym js_object = "(string \<times> string option) list"

text \<open>\<open>obj[k] = v\<close>: an existing property keeps its place, a new one goes last.\<close>

fun obj_set :: "js_object \<Rightarrow> string \<Rightarrow> string option \<Rightarrow> js_object" where
  "obj_set [] k v = [(k, v)]"
| "obj_set ((k', v') # fs) k v = (if k' = k then (k, v) # fs else (k', v') # obj_set fs k v)"

text \<open>\<open>params.shift()\<close>: the first element, or \<open>undefined\<close> for an empty array.\<close>

definition js_shift :: "'a option list \<Rightarrow> 'a option \<times> 'a option list" where
  "js_shift xs = (case xs of [] \<Rightarrow> (None, []) | x # rest \<Rightarrow> (x, rest))"

text \<open>The loop of lines 64--66.\<close>

fun assign_params :: "js_object \<Rightarrow> string list \<Rightarrow> string option list \<Rightarrow> js_object" where
  "assign_params obj [] ps = obj"
| "assign_params obj (n # ns) ps =
     (let (v, rest) = js_shift ps in assign_params (obj_set obj n v) ns rest)"

definition js_object_json :: "js_object \<Rightarrow> json" where
  "js_object_json obj = JObj (concat (map (\<lambda>(k, v). case v of None \<Rightarrow> [] | Some s \<Rightarrow> [(k, JStr s)]) obj))"

definition options_with_auth :: "js_object \<Rightarrow> json \<Rightarrow> fetch_options" where
  "options_with_auth obj access_token =
     \<lparr>http_method = ''POST'',
      body = json_stringify (js_object_json obj),
      headers = [(''Content-Type'', ''application/json''),
                 (''Authorization'', ''Bearer '' @ js_to_string access_token)]\<rparr>"

record command_response =
  ok :: bool
  code :: int
  resp_body :: json

definition request_body :: "string \<Rightarrow> endpoint_config \<Rightarrow> string option list \<Rightarrow> js_object" where
  "request_body server_id cfg ps = assign_params [(''server_id'', Some server_id)] (params cfg) ps"

text \<open>\<open>response.ok\<close> is a status in 200--299.\<close>

definition command :: "endpoint_config \<Rightarrow> string option list \<Rightarrow> json \<Rightarrow> transport \<Rightarrow> command_response action" where
  "command cfg ps access_token net =
     act_bind (get_input ''server-id'') (\<lambda>server_id.
     (let url = cloudways_api_url @ endpoint cfg;
          opts = options_with_auth (request_body server_id cfg ps) access_token
      in act_bind (fetch net url opts) (\<lambda>(status, b).
         act_bind (response_json url b) (\<lambda>data.
         act_return \<lparr>ok = (200 \<le> status \<and> status \<le> 299), code = status, resp_body = data\<rparr>))))"

subsection \<open>The request envelope\<close>

lemma obj_set_fresh: "k \<notin> fst ` set obj \<Longrightarrow> obj_set obj k v = obj @ [(k, v)]"
  by (induction obj) auto

lemma assign_params_fresh:
  assumes "distinct ns" "fst ` set obj \<inter> set ns = {}" "length ps = length ns"
  shows "assign_params obj ns ps = obj @ zip ns ps"
  using assms
proof (induction ns arbitrary: obj ps)
  case (Cons n ns)
  then obtain p ps' where ps: "ps = p # ps'" by (cases ps) auto
  have "obj_set obj n p = obj @ [(n, p)]"
    using Cons.prems(2) by (intro obj_set_fresh) auto
  moreover have "assign_params (obj @ [(n, p)]) ns ps' = (obj @ [(n, p)]) @ zip ns ps'"
    using Cons.prems ps by (intro Cons.IH) auto
  ultimately show ?case by (simp add: ps js_shift_def)
qed simp

lemma command_apply:
  "command cfg ps tok net st =
     (let url = cloudways_api_url @ endpoint cfg;
          opts = options_with_auth (request_body (inputs st ''server-id'') cfg ps) tok;
          st' = st\<lparr>requests := requests st @ [(url, opts)]\<rparr>
      in case net (url, opts) of
           Network_error m \<Rightarrow> (Inl (FetchError (''request to '' @ url @ '' failed, reason: '' @ m)), st')
         | Response status (Inl m) \<Rightarrow>
             (Inl (FetchError (''invalid json response body at '' @ url @ '' reason: '' @ m)), st')
         | Response status (Inr j) \<Rightarrow>
             (Inr \<lparr>ok = (200 \<le> status \<and> status \<le> 299), code = status, resp_body = j\<rparr>, st'))"
  by (simp add: command_def act_bind_apply fetch_def response_json_def Let_def
      split: fetch_outcome.splits sum.splits)

lemma command_requests:
  "command cfg ps tok net st = (x, st') \<Longrightarrow>
   st' = st\<lparr>requests := requests st @
     [(cloudways_api_url @ endpoint cfg, options_with_auth (request_body (inputs st ''server-id'') cfg ps) tok)]\<rparr>"
  by (simp add: command_apply Let_def split: fetch_outcome.splits sum.splits)

section \<open>Properties of the dispatcher\<close>

text \<open>C4. The one request of \<open>command\<close> on a well-formed entry with as many
  parameters as declared names: a POST to the entry's endpoint whose JSON body holds
  \<open>server_id\<close> from the input, then each declared name with its parameter in
  declaration order (an \<open>undefined\<close> parameter leaves its name out), and whose
  \<open>Authorization\<close> header carries the string token.\<close>

theorem command_request:
  assumes "command cfg ps (JStr tok) net st = (x, st')" "config_wf cfg" "length ps = length (params cfg)"
  shows "requests st' = requests st @ [(cloudways_api_url @ endpoint cfg,
    \<lparr>http_method = ''POST'',
     body = json_stringify (JObj ((''server_id'', JStr (inputs st ''server-id'')) #
              concat (map (\<lambda>(n, v). case v of None \<Rightarrow> [] | Some s \<Rightarrow> [(n, JStr s)]) (zip (params cfg) ps)))),
     headers = [(''Content-Type'', ''application/json''), (''Authorization'', ''Bearer '' @ tok)]\<rparr>)]"
proof -
  have "request_body (inputs st ''server-id'') cfg ps = [(''server_id'', Some (inputs st ''server-id''))] @ zip (params cfg) ps"
    unfolding request_body_def using assms(2,3)
    by (intro assign_params_fresh) (auto simp: config_wf_def)
  with command_requests[OF assms(1)] show ?thesis
    by (simp add: options_with_auth_def js_object_json_def)
qed

lemma command_request_witness:
  "requests (snd (command \<lparr>endpoint = ''/service/varnish'', params = [''action'']\<rparr> [Some ''purge''] (JStr ''t'')
      (\<lambda>_. Network_error [])
      \<lparr>inputs = \<lambda>_. ''42'', requests = [], logs = [], outputs = [], failed = None\<rparr>)) =
   [(''https://api.cloudways.com/api/v1/service/varnish'',
     \<lparr>http_method = ''POST'', body = ''{\"server_id\":\"42\",\"action\":\"purge\"}'',
      headers = [(''Content-Type'', ''application/json''), (''Authorization'', ''Bearer t'')]\<rparr>)]"
  using command_request[OF surjective_pairing, of "\<lparr>endpoint = ''/service/varnish'', params = [''action'']\<rparr>" "[Some ''purge'']" "''t''"
      "\<lambda>_. Network_error []" "\<lparr>inputs = \<lambda>_. ''42'', requests = [], logs = [], outputs = [], failed = None\<rparr>"]
  by (simp add: config_wf_def cloudways_api_url_def json_quote_def json_escape_char_def)

lemma js_object_json_defined:
  "js_object_json (map (\<lambda>(k, v). (k, Some v)) fs) = JObj (map (\<lambda>(k, v). (k, JStr v)) fs)"
  by (induction fs) (auto simp: js_object_json_def)

lemma js_object_json_filter:
  "js_object_json obj = JObj (map (\<lambda>(k, v). (k, JStr v)) [(k, v). (k, Some v) \<leftarrow> obj])"
  by (induction obj) (auto simp: js_object_json_def split: option.splits)

lemma request_body_fields:
  assumes "config_wf cfg" "length args = length (params cfg)"
  shows "request_body sid cfg args = (''server_id'', Some sid) # zip (params cfg) args"
  unfolding request_body_def using assms by (subst assign_params_fresh) (auto simp: config_wf_def)

text \<open>C28. The request envelope as the endpoint reads it (specification, section 3):
  for a well-formed entry and one defined parameter per declared name, the body of
  the endpoint request parses as exactly \<open>server_id\<close> followed by the declared names
  paired with the parameters in order, \<open>len(paramNames) + 1\<close> fields and nothing
  after them.\<close>

theorem request_body_envelope:
  assumes "config_wf cfg" "length vs = length (params cfg)"
  shows "json_read_flat_object (json_stringify (js_object_json (request_body sid cfg (map Some vs)))) =
    Some ((''server_id'', sid) # zip (params cfg) vs, [])"
proof -
  have "request_body sid cfg (map Some vs) = [(''server_id'', Some sid)] @ zip (params cfg) (map Some vs)"
    unfolding request_body_def using assms by (intro assign_params_fresh) (auto simp: config_wf_def)
  also have "\<dots> = map (\<lambda>(k, v). (k, Some v)) ((''server_id'', sid) # zip (params cfg) vs)"
    by (simp add: zip_map2)
  finally show ?thesis
    using json_read_stringify_flat[of "(''server_id'', sid) # zip (params cfg) vs" "[]"]
    by (simp only: js_object_json_defined append_Nil2)
qed

lemma request_body_envelope_witness:
  "json_read_flat_object (json_stringify (js_object_json
      (request_body ''42'' \<lparr>endpoint = ''/service/state'', params = [''service'', ''state'']\<rparr>
         (map Some [''php8.0-fpm'', ''restart''])))) =
   Some ([(''server_id'', ''42''), (''service'', ''php8.0-fpm''), (''state'', ''restart'')], [])"
  using request_body_envelope[of "\<lparr>endpoint = ''/service/state'', params = [''service'', ''state'']\<rparr>"
      "[''php8.0-fpm'', ''restart'']" "''42''"]
  by (simp add: config_wf_def)

end
