(* ===== verification/Run.thy ===== *)
theory Run
  imports Decoder Validator Dispatch
begin

text \<open>
  The orchestration, the \<open>async\<close> function \<open>run()\<close> (lines 87--144): decode the
  operation, look it up, validate the arity, authenticate, dispatch, and report. The
  body of the \<open>try\<close> block is \<open>run_try\<close>, a chain of \<open>act_bind\<close>; \<open>run\<close> adds
  the \<open>catch\<close>, which turns any error into \<open>core.setFailed(error.message)\<close>.
  The \<open>await\<close>s are sequential, so the state records the log lines, outputs and
  requests in program order. \<open>api_request\<close> is the property of a request that the
  invariant of the request trace (C29) preserves; it is a specification, not code.
\<close>

definition found_message :: "string option \<Rightarrow> string" where
  "found_message op = ''Found Cloudways API operation: '' @ squote @ js_key op @ squote"

definition unknown_operation :: "string option \<Rightarrow> js_error" where
  "unknown_operation op =
     Error (''Cloudways API operation '' @ squote @ js_key op @ squote @ '' not understood'')"

definition parameters_not_understood :: js_error where
  "parameters_not_understood = Error ''Operation parameters not understood''"

definition authenticated_message :: string where
  "authenticated_message = ''Successfully authenticated with Cloudways API''"

definition success_message :: "json \<Rightarrow> string" where
  "success_message b = ''Success! Received response from Cloudways: '' @ json_stringify b"

text \<open>The callback of lines 133--140.\<close>

definition handle_response :: "command_response \<Rightarrow> unit action" where
  "handle_response response =
     (if \<not> ok response then
        act_bind (act_lift (get_prop (resp_body response) ''error_description'')) (\<lambda>d.
        act_throw (Error (error_arg d)))
      else
        act_bind (core_info (success_message (resp_body response))) (\<lambda>_.
        set_output ''success'' ''true''))"

text \<open>Lines 118--140, for an endpoint found among the own properties of the registry.\<close>

definition dispatch_with_config :: "endpoint_config \<Rightarrow> string option list \<Rightarrow> transport \<Rightarrow> unit action" where
  "dispatch_with_config cfg args net =
     act_bind (act_lift (validate_parameters (Some (params cfg)) args)) (\<lambda>valid.
     if \<not> valid then act_throw parameters_not_understood
     else
       act_bind (get_oauth_token net) (\<lambda>token.
       act_bind (act_lift (check_token token)) (\<lambda>access_token.
       act_bind (core_info authenticated_message) (\<lambda>_.
       act_bind (command cfg args access_token net) handle_response))))"

text \<open>Lines 89--140. An inherited registry entry passes the test of line 115 but its
  \<open>params\<close> is \<open>undefined\<close>, so \<open>validateParameters\<close> throws at
  \<open>Object.keys\<close> (lemma \<open>validate_parameters_None\<close>) before anything else runs.\<close>

definition run_try :: "transport \<Rightarrow> unit action" where
  "run_try net =
     act_bind (get_input ''operation'') (\<lambda>operation_str.
     (case decode_operation operation_str of
        (operation, args) \<Rightarrow>
          (case lookup_endpoint operation of
             Absent \<Rightarrow> act_throw (unknown_operation operation)
           | Inherited k \<Rightarrow>
               act_bind (core_info (found_message operation)) (\<lambda>_.
               act_throw keys_of_undefined)
           | Own cfg \<Rightarrow>
               act_bind (core_info (found_message operation)) (\<lambda>_.
               dispatch_with_config cfg args net))))"

definition run :: "transport \<Rightarrow> action_state \<Rightarrow> action_state" where
  "run net st =
     (case run_try net st of
        (Inl e, st') \<Rightarrow> set_failed (error_message e) st'
      | (Inr _, st') \<Rightarrow> st')"

subsection \<open>The branches of run()\<close>

abbreviation action_start :: "(string \<Rightarrow> string) \<Rightarrow> action_state" where
  "action_start inp \<equiv> \<lparr>inputs = inp, requests = [], logs = [], outputs = [], failed = None\<rparr>"

abbreviation log :: "string \<Rightarrow> action_state \<Rightarrow> action_state" where
  "log msg st \<equiv> st\<lparr>logs := logs st @ [msg]\<rparr>"

text \<open>The last line of the file, \<open>run();\<close> (line 146): the action started on its
  inputs with no request, log line or output yet.\<close>

definition action_main :: "transport \<Rightarrow> (string \<Rightarrow> string) \<Rightarrow> action_state" where
  "action_main net inp = run net (action_start inp)"

text \<open>The endpoint request of \<open>command\<close> (lines 68--70) for the inputs of a state.\<close>

definition dispatch_request :: "action_state \<Rightarrow> endpoint_config \<Rightarrow> string option list \<Rightarrow> json \<Rightarrow> http_request" where
  "dispatch_request st cfg args tok =
     (cloudways_api_url @ endpoint cfg, options_with_auth (request_body (inputs st ''server-id'') cfg args) tok)"

text \<open>The requests the program may make: a JSON POST to the token URL or to the URL
  of an endpoint of the registry.\<close>

definition api_request :: "http_request \<Rightarrow> bool" where
  "api_request r =
     (case r of (url, opts) \<Rightarrow>
        url \<in> set (oauth_url # map (\<lambda>(_, c). cloudways_api_url @ endpoint c) supported_endpoints) \<and>
        http_method opts = ''POST'' \<and> hd (headers opts) = (''Content-Type'', ''application/json''))"

lemma run_Absent:
  "decode_operation (inputs st ''operation'') = (op, args) \<Longrightarrow> lookup_endpoint op = Absent \<Longrightarrow>
   run net st = set_failed (error_message (unknown_operation op)) st"
  by (simp add: run_def run_try_def act_bind_apply)

lemma run_Inherited:
  "decode_operation (inputs st ''operation'') = (op, args) \<Longrightarrow> lookup_endpoint op = Inherited k \<Longrightarrow>
   run net st = set_failed (error_message keys_of_undefined) (log (found_message op) st)"
  by (simp add: run_def run_try_def act_bind_apply)

lemma run_Own:
  "decode_operation (inputs st ''operation'') = (op, args) \<Longrightarrow> lookup_endpoint op = Own cfg \<Longrightarrow>
   run net st =
     (case dispatch_with_config cfg args net (log (found_message op) st) of
        (Inl e, st') \<Rightarrow> set_failed (error_message e) st'
      | (Inr _, st') \<Rightarrow> st')"
  by (simp add: run_def run_try_def act_bind_apply)

subsection \<open>What each step does to the state\<close>

lemma get_oauth_token_state:
  "get_oauth_token net st = (x, st') \<Longrightarrow> st' = st\<lparr>requests := requests st @ [token_request st]\<rparr>"
  by (simp add: get_oauth_token_apply[OF refl] split: fetch_outcome.splits sum.splits)

lemma command_state:
  "command cfg args tok net st = (x, st') \<Longrightarrow>
   st' = st\<lparr>requests := requests st @ [dispatch_request st cfg args tok]\<rparr>"
  by (simp add: command_requests dispatch_request_def)

lemma handle_response_ok:
  "ok r \<Longrightarrow> handle_response r st =
     (Inr (), st\<lparr>logs := logs st @ [success_message (resp_body r)], outputs := outputs st @ [(''success'', ''true'')]\<rparr>)"
  by (simp add: handle_response_def act_bind_apply)

lemma handle_response_not_ok:
  "\<not> ok r \<Longrightarrow> handle_response r st =
     (case get_prop (resp_body r) ''error_description'' of
        Inl e \<Rightarrow> (Inl e, st)
      | Inr d \<Rightarrow> (Inl (Error (error_arg d)), st))"
  by (simp add: handle_response_def act_bind_apply split: sum.splits)

text \<open>How \<open>run()\<close> settles the result of \<open>handleResponse\<close>: success updates the
  state, every error is caught and reported.\<close>

lemma handle_response_settle:
  "(case handle_response r st of (Inl e, st3) \<Rightarrow> set_failed (error_message e) st3 | (Inr _, st3) \<Rightarrow> st3) =
   (if ok r then st\<lparr>logs := logs st @ [success_message (resp_body r)], outputs := outputs st @ [(''success'', ''true'')]\<rparr>
    else set_failed (error_message (case get_prop (resp_body r) ''error_description'' of
                                      Inl e \<Rightarrow> e | Inr d \<Rightarrow> Error (error_arg d))) st)"
  by (cases "ok r") (simp_all add: handle_response_ok handle_response_not_ok split: sum.split)

lemma handle_response_requests:
  "handle_response r st = (x, st') \<Longrightarrow> requests st' = requests st \<and> inputs st' = inputs st"
  by (cases "ok r") (auto simp: handle_response_ok handle_response_not_ok split: sum.splits)

lemma dispatch_with_config_mismatch:
  "length (params cfg) \<noteq> length args \<Longrightarrow>
   dispatch_with_config cfg args net st = (Inl parameters_not_understood, st)"
  by (simp add: dispatch_with_config_def)

lemma dispatch_with_config_token:
  assumes "length (params cfg) = length args"
  shows "dispatch_with_config cfg args net st =
     (case get_oauth_token net st of
        (Inl e, st') \<Rightarrow> (Inl e, st')
      | (Inr token, st') \<Rightarrow>
          (case check_token token of
             Inl e \<Rightarrow> (Inl e, st')
           | Inr tok \<Rightarrow> act_bind (command cfg args tok net) handle_response (log authenticated_message st')))"
  using assms by (simp add: dispatch_with_config_def act_bind_apply split: sum.splits prod.splits)

text \<open>The requests of \<open>dispatch_with_config\<close>: none when the arity is wrong, the
  token request alone when authentication fails, and the token request followed by
  the endpoint request with the checked token otherwise.\<close>

lemma dispatch_with_config_requests:
  assumes "dispatch_with_config cfg args net st = (x, st')"
  shows "(length (params cfg) \<noteq> length args \<and> requests st' = requests st) \<or>
    (length (params cfg) = length args \<and> requests st' = requests st @ [token_request st]) \<or>
    (\<exists>status j tok. length (params cfg) = length args \<and>
       net (token_request st) = Response status (Inr j) \<and> check_token j = Inr tok \<and>
       requests st' = requests st @ [token_request st, dispatch_request st cfg args tok])"
proof (cases "length (params cfg) = length args")
  case False
  with assms show ?thesis by (simp add: dispatch_with_config_mismatch)
next
  case True
  obtain y st2 where tok: "get_oauth_token net st = (y, st2)" by fastforce
  have st2: "st2 = st\<lparr>requests := requests st @ [token_request st]\<rparr>"
    using get_oauth_token_state[OF tok] .
  show ?thesis
  proof (cases "\<exists>j tok. y = Inr j \<and> check_token j = Inr tok")
    case False
    with assms True tok st2 show ?thesis
      by (auto simp: dispatch_with_config_token split: sum.splits)
  next
    case True
    then obtain j tk where y: "y = Inr j" and ct: "check_token j = Inr tk" by blast
    from tok y obtain status where net: "net (token_request st) = Response status (Inr j)"
      by (auto simp: get_oauth_token_apply[OF refl] split: fetch_outcome.splits sum.splits)
    obtain z st3 where cmd: "command cfg args tk net (log authenticated_message st2) = (z, st3)"
      by fastforce
    have st3: "requests st3 = requests st @ [token_request st, dispatch_request st cfg args tk]"
      using command_state[OF cmd] st2 by (simp add: dispatch_request_def)
    from assms \<open>length (params cfg) = length args\<close> tok y ct cmd
    have "requests st' = requests st3"
      by (auto simp: dispatch_with_config_token act_bind_apply split: sum.splits
          dest: handle_response_requests)
    with st3 net ct \<open>length (params cfg) = length args\<close> show ?thesis by auto
  qed
qed

lemma set_failed_simps [simp]:
  "requests (set_failed m st) = requests st" "inputs (set_failed m st) = inputs st"
  "logs (set_failed m st) = logs st" "outputs (set_failed m st) = outputs st"
  "failed (set_failed m st) = Some m"
  by (simp_all add: set_failed_def)

lemma token_request_frame [simp]:
  "token_request (st\<lparr>logs := l\<rparr>) = token_request st"
  "token_request (st\<lparr>requests := r\<rparr>) = token_request st"
  by (simp_all add: token_request_def)

lemma dispatch_request_frame [simp]:
  "dispatch_request (st\<lparr>logs := l\<rparr>) = dispatch_request st"
  "dispatch_request (st\<lparr>requests := r\<rparr>) = dispatch_request st"
  by (simp_all add: dispatch_request_def fun_eq_iff)

text \<open>The network calls of one run, by the branch taken.\<close>

lemma run_requests_cases:
  obtains (none) "requests (run net st) = requests st"
  | (token) op args cfg where "decode_operation (inputs st ''operation'') = (op, args)"
      "lookup_endpoint op = Own cfg" "length (params cfg) = length args"
      "requests (run net st) = requests st @ [token_request st]"
  | (both) op args cfg status j tok where "decode_operation (inputs st ''operation'') = (op, args)"
      "lookup_endpoint op = Own cfg" "length (params cfg) = length args"
      "net (token_request st) = Response status (Inr j)" "check_token j = Inr tok"
      "requests (run net st) = requests st @ [token_request st, dispatch_request st cfg args tok]"
proof -
  obtain op args where dec: "decode_operation (inputs st ''operation'') = (op, args)" by fastforce
  show thesis
  proof (cases "lookup_endpoint op")
    case (Own cfg)
    obtain x st' where d: "dispatch_with_config cfg args net (log (found_message op) st) = (x, st')"
      by fastforce
    have run: "requests (run net st) = requests st'"
      using run_Own[OF dec Own] d by (auto split: sum.splits)
    from dispatch_with_config_requests[OF d] run dec Own that show thesis by auto
  qed (use run_Absent[OF dec] run_Inherited[OF dec] that in simp_all)
qed

text \<open>The whole run once the operation resolved to an own entry with the right number
  of parameters: the token request, the token checks, the endpoint request and the
  handling of its answer, each outcome of the network written out.\<close>

lemma run_Own_valid:
  assumes dec: "decode_operation (inputs st ''operation'') = (op, args)"
    and own: "lookup_endpoint op = Own cfg" and len: "length (params cfg) = length args"
  shows "run net st =
   (let st1 = (log (found_message op) st)\<lparr>requests := requests st @ [token_request st]\<rparr> in
    case net (token_request st) of
      Network_error m \<Rightarrow> set_failed (''request to '' @ oauth_url @ '' failed, reason: '' @ m) st1
    | Response s (Inl m) \<Rightarrow>
        set_failed (''invalid json response body at '' @ oauth_url @ '' reason: '' @ m) st1
    | Response s (Inr j) \<Rightarrow>
        (case check_token j of
           Inl e \<Rightarrow> set_failed (error_message e) st1
         | Inr tok \<Rightarrow>
             (let url = cloudways_api_url @ endpoint cfg;
                  st2 = (log authenticated_message st1)\<lparr>requests :=
                          requests st @ [token_request st, dispatch_request st cfg args tok]\<rparr>
              in case net (dispatch_request st cfg args tok) of
                   Network_error m \<Rightarrow> set_failed (''request to '' @ url @ '' failed, reason: '' @ m) st2
                 | Response s2 (Inl m) \<Rightarrow>
                     set_failed (''invalid json response body at '' @ url @ '' reason: '' @ m) st2
                 | Response s2 (Inr d) \<Rightarrow>
                     (case handle_response \<lparr>ok = (200 \<le> s2 \<and> s2 \<le> 299), code = s2, resp_body = d\<rparr> st2 of
                        (Inl e, st3) \<Rightarrow> set_failed (error_message e) st3
                      | (Inr _, st3) \<Rightarrow> st3))))"
proof -
  let ?st0 = "log (found_message op) st"
  have tok: "get_oauth_token net ?st0 = (case net (token_request st) of
        Network_error m \<Rightarrow> (Inl (FetchError (''request to '' @ oauth_url @ '' failed, reason: '' @ m)),
          ?st0\<lparr>requests := requests st @ [token_request st]\<rparr>)
      | Response status (Inl m) \<Rightarrow> (Inl (FetchError (''invalid json response body at '' @ oauth_url @ '' reason: '' @ m)),
          ?st0\<lparr>requests := requests st @ [token_request st]\<rparr>)
      | Response status (Inr j) \<Rightarrow> (Inr j, ?st0\<lparr>requests := requests st @ [token_request st]\<rparr>))"
    by (simp add: get_oauth_token_apply[OF refl] split: fetch_outcome.split sum.split)
  show ?thesis
    using run_Own[OF dec own] dispatch_with_config_token[OF len, of net ?st0] tok
    by (simp add: act_bind_apply command_apply dispatch_request_def Let_def
        split: fetch_outcome.splits sum.splits prod.splits)
qed

text \<open>The rules that evaluate a run on concrete inputs and server answers: the
  registry, the token checks, the two requests and the body built from the
  parameters.\<close>

lemmas run_eval = registry_eval Let_def check_token_def get_prop_def token_request_def oauth_url_def
  cloudways_api_url_def dispatch_request_def

lemmas request_eval = request_body_def options_with_auth_def js_shift_def js_object_json_def
  json_quote_def json_escape_char_def

section \<open>Properties of run()\<close>

text \<open>C5. Bounds and order of the network calls: one run makes at most two requests,
  and the first is always the token request built from the \<open>email\<close> and
  \<open>api-key\<close> inputs.\<close>

theorem run_request_trace:
  "\<exists>rs. requests (run net st) = requests st @ rs \<and> length rs \<le> 2 \<and>
        (rs \<noteq> [] \<longrightarrow> hd rs = token_request st)"
  by (cases rule: run_requests_cases[of net st]) auto

lemma run_request_trace_witness:
  "hd (requests (run (\<lambda>_. Network_error ''ECONNREFUSED'') (action_start (\<lambda>_. ''varnish.purge'')))) =
     token_request (action_start (\<lambda>_. ''varnish.purge''))"
proof -
  let ?st = "action_start (\<lambda>_. ''varnish.purge'')" and ?net = "\<lambda>_ :: http_request. Network_error ''ECONNREFUSED''"
  have "requests (run ?net ?st) = [token_request ?st]"
    using run_Own_valid[of ?st "Some ''varnish''" "[Some ''purge'']"
        "\<lparr>endpoint = ''/service/varnish'', params = [''action'']\<rparr>" ?net]
    by (simp add: decode_eval registry_eval Let_def)
  with run_request_trace[of ?net ?st] show ?thesis by auto
qed

text \<open>C1. No partial dispatch: when a run makes its second request, the operation
  resolved to a registry entry of its own, the arity matched, the token request was
  answered with a token that passed the checks, and the second request goes to that
  entry's endpoint with the decoded parameters and that very token.\<close>

theorem run_dispatch_authorized:
  assumes "requests (run net st) = requests st @ [r1, r2]"
  shows "\<exists>op args cfg status j tok.
     decode_operation (inputs st ''operation'') = (op, args) \<and> lookup_endpoint op = Own cfg \<and>
     length (params cfg) = length args \<and> r1 = token_request st \<and>
     net r1 = Response status (Inr j) \<and> check_token j = Inr tok \<and>
     r2 = (cloudways_api_url @ endpoint cfg,
           options_with_auth (request_body (inputs st ''server-id'') cfg args) tok)"
  using assms
  by (cases rule: run_requests_cases[of net st]) (auto simp: dispatch_request_def)

lemma run_dispatch_authorized_witness:
  "fst (requests (run (\<lambda>(url, _). if url = oauth_url then Response 200 (Inr (JObj [(''access_token'', JStr ''tok'')]))
                                 else Response 200 (Inr (JObj [])))
      (action_start (\<lambda>k. if k = ''operation'' then ''varnish.purge'' else ''42''))) ! 1) =
   ''https://api.cloudways.com/api/v1/service/varnish''"
proof -
  let ?st = "action_start (\<lambda>k. if k = ''operation'' then ''varnish.purge'' else ''42'')"
    and ?net = "\<lambda>(url :: string, _ :: fetch_options). if url = oauth_url
       then Response 200 (Inr (JObj [(''access_token'', JStr ''tok'')])) else Response 200 (Inr (JObj []))"
    and ?cfg = "\<lparr>endpoint = ''/service/varnish'', params = [''action'']\<rparr>"
  have dec: "decode_operation (inputs ?st ''operation'') = (Some ''varnish'', [Some ''purge''])"
    by (simp add: decode_eval)
  have reqs: "requests (run ?net ?st) = requests ?st @
      [token_request ?st, dispatch_request ?st ?cfg [Some ''purge''] (JStr ''tok'')]"
    using run_Own_valid[OF dec, of ?cfg ?net]
    by (simp add: run_eval handle_response_settle)
  from run_dispatch_authorized[OF reqs] dec obtain cfg where
    own: "lookup_endpoint (Some ''varnish'') = Own cfg" and
    url: "fst (dispatch_request ?st ?cfg [Some ''purge''] (JStr ''tok'')) = cloudways_api_url @ endpoint cfg"
    by auto
  have "cfg = ?cfg"
    using own by (simp add: registry_eval)
  with url have "fst (dispatch_request ?st ?cfg [Some ''purge''] (JStr ''tok'')) =
      ''https://api.cloudways.com/api/v1/service/varnish''"
    by (simp add: cloudways_api_url_def)
  with reqs show ?thesis by simp
qed

text \<open>C8. An operation name that is not in the registry fails the run with the
  message of line 115 before anything else happens: no request, no log line, no
  output.\<close>

theorem run_unknown_operation:
  assumes "decode_operation (inputs st ''operation'') = (op, args)" "lookup_endpoint op = Absent"
  shows "requests (run net st) = requests st \<and> logs (run net st) = logs st \<and>
    outputs (run net st) = outputs st \<and>
    failed (run net st) =
      Some (''Cloudways API operation '' @ squote @ js_key op @ squote @ '' not understood'')"
  using run_Absent[OF assms] by (simp add: unknown_operation_def)

lemma run_unknown_operation_witness:
  "failed (run (\<lambda>_. Network_error []) (action_start (\<lambda>_. ''unknown.x''))) =
     Some (''Cloudways API operation '' @ squote @ ''unknown'' @ squote @ '' not understood'')"
  using run_unknown_operation[of "action_start (\<lambda>_. ''unknown.x'')" "Some ''unknown''" "[Some ''x'']"
      "\<lambda>_. Network_error []"]
  by (simp add: decode_eval registry_eval)

text \<open>C9. A known operation with the wrong number of parameters fails with the
  message of line 119 and makes no request.\<close>

theorem run_parameter_mismatch:
  assumes "decode_operation (inputs st ''operation'') = (op, args)" "lookup_endpoint op = Own cfg"
    "length (params cfg) \<noteq> length args"
  shows "requests (run net st) = requests st \<and> outputs (run net st) = outputs st \<and>
    failed (run net st) = Some ''Operation parameters not understood''"
  using run_Own[OF assms(1,2)] dispatch_with_config_mismatch[OF assms(3)]
  by (simp add: parameters_not_understood_def)

lemma run_parameter_mismatch_witness:
  "failed (run (\<lambda>_. Network_error []) (action_start (\<lambda>_. ''varnish.purge.now''))) =
     Some ''Operation parameters not understood''"
  using run_parameter_mismatch[of "action_start (\<lambda>_. ''varnish.purge.now'')" "Some ''varnish''"
      "[Some ''purge'', Some ''now'']" "\<lparr>endpoint = ''/service/varnish'', params = [''action'']\<rparr>"
      "\<lambda>_. Network_error []"]
  by (simp add: decode_eval registry_eval)

text \<open>C7. An error answer of the token endpoint ends the run with the API's
  \<open>error_description\<close> after the token request alone: the dispatcher is never
  invoked.\<close>

theorem run_auth_error_no_dispatch:
  assumes "decode_operation (inputs st ''operation'') = (op, args)" "lookup_endpoint op = Own cfg"
    "length (params cfg) = length args"
    "net (token_request st) = Response status (Inr (JObj fs))" "js_truthy (map_of (rev fs) ''error'')"
  shows "requests (run net st) = requests st @ [token_request st] \<and> outputs (run net st) = outputs st \<and>
    failed (run net st) = Some (error_arg (map_of (rev fs) ''error_description''))"
proof -
  have "check_token (JObj fs) = Inl (Error (error_arg (map_of (rev fs) ''error_description'')))"
    using assms(5) by (simp add: check_token_def get_prop_def)
  with run_Own_valid[OF assms(1-3)] assms(4) show ?thesis by (simp add: Let_def)
qed

lemma run_auth_error_no_dispatch_witness:
  "requests (run (\<lambda>_. Response 401 (Inr (JObj [(''error'', JStr ''invalid_grant''),
        (''error_description'', JStr ''bad creds'')])))
      (action_start (\<lambda>_. ''varnish.purge''))) =
     [token_request (action_start (\<lambda>_. ''varnish.purge''))] \<and>
   failed (run (\<lambda>_. Response 401 (Inr (JObj [(''error'', JStr ''invalid_grant''),
        (''error_description'', JStr ''bad creds'')])))
      (action_start (\<lambda>_. ''varnish.purge''))) = Some ''bad creds''"
  using run_auth_error_no_dispatch[of "action_start (\<lambda>_. ''varnish.purge'')" "Some ''varnish''"
      "[Some ''purge'']" "\<lparr>endpoint = ''/service/varnish'', params = [''action'']\<rparr>"
      "\<lambda>_. Response 401 (Inr (JObj [(''error'', JStr ''invalid_grant''), (''error_description'', JStr ''bad creds'')]))"
      401 "[(''error'', JStr ''invalid_grant''), (''error_description'', JStr ''bad creds'')]"]
  by (simp add: decode_eval registry_eval error_arg_def)

text \<open>C2. The successful run: two requests (token, then endpoint with the checked
  token), the three log lines of lines 116, 131 and 138 in order, the output
  \<open>success = true\<close>, and no failure.\<close>

theorem run_success:
  assumes "decode_operation (inputs st ''operation'') = (op, args)" "lookup_endpoint op = Own cfg"
    "length (params cfg) = length args"
    "net (token_request st) = Response s1 (Inr j)" "check_token j = Inr tok"
    "net (dispatch_request st cfg args tok) = Response s2 (Inr d)" "200 \<le> s2" "s2 \<le> 299"
  shows "run net st =
    st\<lparr>requests := requests st @ [token_request st, dispatch_request st cfg args tok],
       logs := logs st @ [found_message op, authenticated_message, success_message d],
       outputs := outputs st @ [(''success'', ''true'')]\<rparr>"
  using run_Own_valid[OF assms(1-3)] assms(4-8) by (simp add: Let_def handle_response_ok)

text \<open>The witness is the specification's scenario: \<open>varnish.purge\<close> posts
  \<open>{"server_id":"42","action":"purge"}\<close> to \<open>/service/varnish\<close> with the bearer
  token, and a 200 answer marks the run successful.\<close>

lemma run_success_witness:
  "requests (run (\<lambda>(url, _). if url = oauth_url then Response 200 (Inr (JObj [(''access_token'', JStr ''tok'')]))
                           else Response 200 (Inr (JObj [(''message'', JStr ''ok'')])))
      (action_start (\<lambda>k. if k = ''operation'' then ''varnish.purge'' else ''42''))) =
     [token_request (action_start (\<lambda>k. if k = ''operation'' then ''varnish.purge'' else ''42'')),
      (''https://api.cloudways.com/api/v1/service/varnish'',
       \<lparr>http_method = ''POST'', body = ''{\"server_id\":\"42\",\"action\":\"purge\"}'',
        headers = [(''Content-Type'', ''application/json''), (''Authorization'', ''Bearer tok'')]\<rparr>)] \<and>
   outputs (run (\<lambda>(url, _). if url = oauth_url then Response 200 (Inr (JObj [(''access_token'', JStr ''tok'')]))
                           else Response 200 (Inr (JObj [(''message'', JStr ''ok'')])))
      (action_start (\<lambda>k. if k = ''operation'' then ''varnish.purge'' else ''42''))) = [(''success'', ''true'')] \<and>
   failed (run (\<lambda>(url, _). if url = oauth_url then Response 200 (Inr (JObj [(''access_token'', JStr ''tok'')]))
                           else Response 200 (Inr (JObj [(''message'', JStr ''ok'')])))
      (action_start (\<lambda>k. if k = ''operation'' then ''varnish.purge'' else ''42''))) = None"
  using run_success[of "action_start (\<lambda>k. if k = ''operation'' then ''varnish.purge'' else ''42'')"
      "Some ''varnish''" "[Some ''purge'']" "\<lparr>endpoint = ''/service/varnish'', params = [''action'']\<rparr>"
      "\<lambda>(url, _). if url = oauth_url then Response 200 (Inr (JObj [(''access_token'', JStr ''tok'')]))
                 else Response 200 (Inr (JObj [(''message'', JStr ''ok'')]))"
      200 "JObj [(''access_token'', JStr ''tok'')]" "JStr ''tok''" 200 "JObj [(''message'', JStr ''ok'')]"]
  by (simp add: decode_eval run_eval request_eval)

text \<open>C11. Exactly one outcome is reported: starting from a state that has not
  failed, a run either ends without failure having set the single output
  \<open>success = true\<close>, or ends failed without any output.\<close>

theorem run_outcome_exclusive:
  assumes "failed st = None"
  shows "(failed (run net st) = None \<and> outputs (run net st) = outputs st @ [(''success'', ''true'')]) \<or>
         (failed (run net st) \<noteq> None \<and> outputs (run net st) = outputs st)"
proof -
  obtain op args where dec: "decode_operation (inputs st ''operation'') = (op, args)" by fastforce
  show ?thesis
  proof (cases "lookup_endpoint op")
    case Absent
    with run_Absent[OF dec] show ?thesis by simp
  next
    case (Inherited k)
    with run_Inherited[OF dec] show ?thesis by simp
  next
    case (Own cfg)
    show ?thesis
    proof (cases "length (params cfg) = length args")
      case False
      with run_Own[OF dec Own] show ?thesis by (simp add: dispatch_with_config_mismatch)
    next
      case True
      from run_Own_valid[OF dec Own True] assms show ?thesis
        by (simp add: Let_def handle_response_settle split: fetch_outcome.split sum.split)
    qed
  qed
qed

lemma run_outcome_exclusive_witness:
  "failed (run (\<lambda>_. Network_error []) (action_start (\<lambda>_. ''unknown.x''))) \<noteq> None \<and>
   outputs (run (\<lambda>_. Network_error []) (action_start (\<lambda>_. ''unknown.x''))) = []"
  using run_outcome_exclusive[of "action_start (\<lambda>_. ''unknown.x'')" "\<lambda>_. Network_error []"]
    run_Absent[of "action_start (\<lambda>_. ''unknown.x'')" "Some ''unknown''" "[Some ''x'']"]
  by (simp add: decode_eval registry_eval)

text \<open>C10. An endpoint answer with a status outside 200--299 fails the run with the
  answer's \<open>error_description\<close> (line 135), after both requests and without
  output.\<close>

theorem run_remote_error:
  assumes "decode_operation (inputs st ''operation'') = (op, args)" "lookup_endpoint op = Own cfg"
    "length (params cfg) = length args"
    "net (token_request st) = Response s1 (Inr j)" "check_token j = Inr tok"
    "net (dispatch_request st cfg args tok) = Response s2 (Inr (JObj fs))" "\<not> (200 \<le> s2 \<and> s2 \<le> 299)"
  shows "requests (run net st) = requests st @ [token_request st, dispatch_request st cfg args tok] \<and>
    outputs (run net st) = outputs st \<and>
    failed (run net st) = Some (error_arg (map_of (rev fs) ''error_description''))"
proof -
  have "\<not> ok \<lparr>ok = (200 \<le> s2 \<and> s2 \<le> 299), code = s2, resp_body = JObj fs\<rparr>"
    using assms(7) by simp
  with run_Own_valid[OF assms(1-3)] assms(4-6) show ?thesis
    by (simp add: Let_def handle_response_settle get_prop_def)
qed

lemma run_remote_error_witness:
  "failed (run (\<lambda>(url, _). if url = oauth_url then Response 200 (Inr (JObj [(''access_token'', JStr ''tok'')]))
                          else Response 422 (Inr (JObj [(''error_description'', JStr ''invalid app'')])))
      (action_start (\<lambda>k. if k = ''operation'' then ''cdn_purge.7'' else ''42''))) = Some ''invalid app''"
  using run_remote_error[of "action_start (\<lambda>k. if k = ''operation'' then ''cdn_purge.7'' else ''42'')"
      "Some ''cdn_purge''" "[Some ''7'']" "\<lparr>endpoint = ''/app/cdn/purge'', params = [''app_id'']\<rparr>"
      "\<lambda>(url, _). if url = oauth_url then Response 200 (Inr (JObj [(''access_token'', JStr ''tok'')]))
                 else Response 422 (Inr (JObj [(''error_description'', JStr ''invalid app'')]))"
      200 "JObj [(''access_token'', JStr ''tok'')]" "JStr ''tok''" 422
      "[(''error_description'', JStr ''invalid app'')]"]
  by (simp add: decode_eval run_eval error_arg_def)

text \<open>C21. An operation named like a property of \<open>Object.prototype\<close>
  (\<open>constructor\<close>, \<open>toString\<close>, \<open>__proto__\<close>, ...) is not reported as unknown:
  the lookup of line 114 finds the inherited property, which is truthy, and the run
  fails instead with the \<open>TypeError\<close> of \<open>Object.keys(undefined)\<close>.\<close>

theorem run_inherited_operation_type_error:
  assumes "decode_operation (inputs st ''operation'') = (op, args)" "js_key op \<in> set object_prototype_keys"
  shows "requests (run net st) = requests st \<and>
    failed (run net st) = Some ''Cannot convert undefined or null to object''"
  using run_Inherited[OF assms(1) lookup_endpoint_inherited[OF assms(2)]]
  by (simp add: keys_of_undefined_def)

lemma run_inherited_operation_type_error_witness:
  "failed (run (\<lambda>_. Network_error []) (action_start (\<lambda>_. ''constructor.x''))) =
     Some ''Cannot convert undefined or null to object''"
  using run_inherited_operation_type_error[of "action_start (\<lambda>_. ''constructor.x'')"
      "Some ''constructor''" "[Some ''x'']" "\<lambda>_. Network_error []"]
  by (simp add: decode_eval registry_eval)

text \<open>C24. A network failure of the token request (a rejected \<open>fetch\<close> on line 43)
  ends the run with node-fetch's message naming the token URL and the reason, after
  that one request and without output.\<close>

theorem run_token_network_error:
  assumes "decode_operation (inputs st ''operation'') = (op, args)" "lookup_endpoint op = Own cfg"
    "length (params cfg) = length args" "net (token_request st) = Network_error m"
  shows "requests (run net st) = requests st @ [token_request st] \<and> outputs (run net st) = outputs st \<and>
    failed (run net st) =
      Some (''request to https://api.cloudways.com/api/v1/oauth/access_token failed, reason: '' @ m)"
  using run_Own_valid[OF assms(1-3)] assms(4)
  by (simp add: Let_def oauth_url_def cloudways_api_url_def)

lemma run_token_network_error_witness:
  "failed (run (\<lambda>_. Network_error ''getaddrinfo ENOTFOUND'') (action_start (\<lambda>_. ''cdn_purge.7''))) =
     Some (''request to https://api.cloudways.com/api/v1/oauth/access_token failed, reason: '' @ ''getaddrinfo ENOTFOUND'')"
  using run_token_network_error[of "action_start (\<lambda>_. ''cdn_purge.7'')" "Some ''cdn_purge''" "[Some ''7'']"
      "\<lparr>endpoint = ''/app/cdn/purge'', params = [''app_id'']\<rparr>" "\<lambda>_. Network_error ''getaddrinfo ENOTFOUND''"
      "''getaddrinfo ENOTFOUND''"]
  by (simp add: decode_eval registry_eval)

text \<open>C25. An endpoint answer whose body is not JSON is not reported by its status:
  \<open>response.json()\<close> on line 72 rejects first, whatever the status, and the run
  fails with node-fetch's \<open>invalid json\<close> message naming the endpoint URL.\<close>

theorem run_endpoint_invalid_json:
  assumes "decode_operation (inputs st ''operation'') = (op, args)" "lookup_endpoint op = Own cfg"
    "length (params cfg) = length args"
    "net (token_request st) = Response s1 (Inr j)" "check_token j = Inr tok"
    "net (dispatch_request st cfg args tok) = Response s2 (Inl m)"
  shows "requests (run net st) = requests st @ [token_request st, dispatch_request st cfg args tok] \<and>
    outputs (run net st) = outputs st \<and>
    failed (run net st) =
      Some (''invalid json response body at '' @ cloudways_api_url @ endpoint cfg @ '' reason: '' @ m)"
  using run_Own_valid[OF assms(1-3)] assms(4-6) by (simp add: Let_def)

lemma run_endpoint_invalid_json_witness:
  "failed (run (\<lambda>(url, _). if url = oauth_url then Response 200 (Inr (JObj [(''access_token'', JStr ''tok'')]))
                          else Response 502 (Inl ''Unexpected token < in JSON at position 0''))
      (action_start (\<lambda>k. if k = ''operation'' then ''varnish.purge'' else ''42''))) =
   Some (''invalid json response body at https://api.cloudways.com/api/v1/service/varnish reason: '' @
         ''Unexpected token < in JSON at position 0'')"
  using run_endpoint_invalid_json[of "action_start (\<lambda>k. if k = ''operation'' then ''varnish.purge'' else ''42'')"
      "Some ''varnish''" "[Some ''purge'']" "\<lparr>endpoint = ''/service/varnish'', params = [''action'']\<rparr>"
      "\<lambda>(url, _). if url = oauth_url then Response 200 (Inr (JObj [(''access_token'', JStr ''tok'')]))
                 else Response 502 (Inl ''Unexpected token < in JSON at position 0'')"
      200 "JObj [(''access_token'', JStr ''tok'')]" "JStr ''tok''" 502 "''Unexpected token < in JSON at position 0''"]
  by (simp add: decode_eval run_eval)

lemma api_request_token: "api_request (token_request st)"
  by (simp add: api_request_def token_request_def oauth_options_def)

lemma api_request_dispatch:
  "lookup_endpoint op = Own cfg \<Longrightarrow> api_request (dispatch_request st cfg args tok)"
  by (force simp: api_request_def dispatch_request_def options_with_auth_def lookup_endpoint_Own_iff
      dest: map_of_SomeD)

text \<open>C29. Invariant of the request trace: if every request recorded so far went to the
  Cloudways API as a JSON POST to the token URL or to a registered endpoint, the same
  holds after a run, whatever the inputs and the server's answers: no input can direct a
  request elsewhere.\<close>

theorem run_requests_api:
  assumes "list_all api_request (requests st)"
  shows "list_all api_request (requests (run net st))"
proof (cases rule: run_requests_cases[of net st])
  case none
  with assms show ?thesis by simp
next
  case (token op args cfg)
  with assms show ?thesis by (simp add: api_request_token)
next
  case (both op args cfg status j tok)
  with assms show ?thesis by (simp add: api_request_token api_request_dispatch)
qed

lemma run_requests_api_witness:
  "length (requests (run (\<lambda>(url, _). if url = oauth_url
        then Response 200 (Inr (JObj [(''access_token'', JStr ''tok'')])) else Response 200 (Inr (JObj [])))
      (action_start (\<lambda>k. if k = ''operation'' then ''varnish.purge'' else ''42'')))) = 2 \<and>
   list_all api_request (requests (run (\<lambda>(url, _). if url = oauth_url
        then Response 200 (Inr (JObj [(''access_token'', JStr ''tok'')])) else Response 200 (Inr (JObj [])))
      (action_start (\<lambda>k. if k = ''operation'' then ''varnish.purge'' else ''42''))))"
proof -
  let ?net = "\<lambda>(url, _). if url = oauth_url
        then Response 200 (Inr (JObj [(''access_token'', JStr ''tok'')])) else Response 200 (Inr (JObj []))"
  let ?st = "action_start (\<lambda>k. if k = ''operation'' then ''varnish.purge'' else ''42'')"
  have dec: "decode_operation (inputs ?st ''operation'') = (Some ''varnish'', [Some ''purge''])"
    by (simp add: decode_eval)
  have "requests (run ?net ?st) = [token_request ?st,
      dispatch_request ?st \<lparr>endpoint = ''/service/varnish'', params = [''action'']\<rparr> [Some ''purge''] (JStr ''tok'')]"
    using run_Own_valid[OF dec, of "\<lparr>endpoint = ''/service/varnish'', params = [''action'']\<rparr>" ?net]
    by (simp add: run_eval handle_response_settle split: fetch_outcome.split sum.split)
  with run_requests_api[of ?st ?net] show ?thesis by simp
qed

text \<open>C30. The token checks of lines 123--129 look at the token's type nowhere: when the
  token answer carries a truthy number, \<open>true\<close>, an array or an object without a
  \<open>legnth\<close> property as \<open>access_token\<close>, the run goes on to the endpoint request,
  whose \<open>Authorization\<close> header is \<open>Bearer\<close> followed by \<open>String(token)\<close>
  (line 53): \<open>Bearer 12345\<close>, \<open>Bearer true\<close>, \<open>Bearer [object Object]\<close>.\<close>

theorem run_non_string_token:
  assumes dec: "decode_operation (inputs st ''operation'') = (op, args)"
    and own: "lookup_endpoint op = Own cfg" and len: "length (params cfg) = length args"
    and answer: "net (token_request st) = Response s (Inr (JObj fs))"
    and err: "\<not> js_truthy (map_of (rev fs) ''error'')" and at: "map_of (rev fs) ''access_token'' = Some a"
    and kind: "(\<exists>n. a = JNum n \<and> n \<noteq> 0) \<or> a = JBool True \<or> (\<exists>xs. a = JArr xs) \<or>
         (\<exists>gs. a = JObj gs \<and> map_of (rev gs) ''legnth'' = None)"
  shows "\<exists>body. requests (run net st) = requests st @
     [token_request st, (cloudways_api_url @ endpoint cfg,
        \<lparr>http_method = ''POST'', body = body,
         headers = [(''Content-Type'', ''application/json''), (''Authorization'', ''Bearer '' @ js_to_string a)]\<rparr>)]"
proof -
  have tok: "check_token (JObj fs) = Inr a"
    using err at kind by (rule check_token_non_string)
  show ?thesis
    using run_Own_valid[OF dec own len, of net] answer tok
    by (auto simp: Let_def handle_response_settle dispatch_request_def options_with_auth_def
        split: fetch_outcome.split sum.split)
qed

lemma run_non_string_token_witness:
  "\<exists>body. requests (run (\<lambda>(url, _). if url = oauth_url
        then Response 200 (Inr (JObj [(''access_token'', JNum 12345)])) else Response 200 (Inr (JObj [])))
      (action_start (\<lambda>k. if k = ''operation'' then ''varnish.purge'' else ''42''))) =
     [token_request (action_start (\<lambda>k. if k = ''operation'' then ''varnish.purge'' else ''42'')),
      (cloudways_api_url @ ''/service/varnish'',
        \<lparr>http_method = ''POST'', body = body,
         headers = [(''Content-Type'', ''application/json''), (''Authorization'', ''Bearer 12345'')]\<rparr>)]"
proof -
  let ?net = "\<lambda>(url, _). if url = oauth_url
        then Response 200 (Inr (JObj [(''access_token'', JNum 12345)])) else Response 200 (Inr (JObj []))"
  let ?st = "action_start (\<lambda>k. if k = ''operation'' then ''varnish.purge'' else ''42'')"
  have dec: "decode_operation (inputs ?st ''operation'') = (Some ''varnish'', [Some ''purge''])"
    by (simp add: decode_eval)
  have own: "lookup_endpoint (Some ''varnish'') = Own \<lparr>endpoint = ''/service/varnish'', params = [''action'']\<rparr>"
    by (simp add: registry_eval)
  have "\<exists>body. requests (run ?net ?st) = requests ?st @
     [token_request ?st, (cloudways_api_url @ endpoint \<lparr>endpoint = ''/service/varnish'', params = [''action'']\<rparr>,
        \<lparr>http_method = ''POST'', body = body,
         headers = [(''Content-Type'', ''application/json''), (''Authorization'', ''Bearer '' @ js_to_string (JNum 12345))]\<rparr>)]"
    by (rule run_non_string_token[where net = ?net and st = ?st and fs = "[(''access_token'', JNum 12345)]" and a = "JNum 12345", OF dec own]) (simp_all add: token_request_def)
  moreover have "js_to_string (JNum 12345) = ''12345''"
    by (simp add: int_to_decimal_def nat_to_decimal.simps digit_char_def)
  ultimately show ?thesis by simp
qed

end
