(* ===== verification/DecoderSpec.thy ===== *)
theory DecoderSpec
  imports Decoder
begin

text \<open>
  The decoder as section 4.2 of the specification describes it, as a reference for the
  decoder of the program (\<open>Decoder\<close>): every match of the protected-token pattern is
  replaced, in order of appearance, by \<open>$i\<close> with \<open>i\<close> its ordinal, and recorded
  under that index; after the split on \<open>.\<close>, a piece that is exactly \<open>$\<close> followed
  by digits is restored from the record at the index those digits denote, and a
  missing index is the error \<open>DecodeError\<close> of section 7. The first piece is the
  operation name. These definitions model the specification, not code.
\<close>

datatype decode_error = DecodeError nat

text \<open>Step 1: protect every match, scanning on after the previous one (a global
  replace). The scan restarts on the text after the match, which is shorter, so the
  loop ends; its termination measure is the length of the string.\<close>

function spec_protect :: "nat \<Rightarrow> string \<Rightarrow> string \<times> (nat \<times> string) list" where
  "spec_protect i s =
     (case php_fpm_search s of
        None \<Rightarrow> (s, [])
      | Some (p, m, q) \<Rightarrow>
          (let (q', tbl) = spec_protect (Suc i) q in (p @ CHR ''$'' # nat_to_decimal i @ q', (i, m) # tbl)))"
  by pat_completeness auto
termination
  by (relation "measure (\<lambda>(i, s). length s)")
    (auto dest!: php_fpm_search_Some simp: php_fpm_lang_def)

declare spec_protect.simps [simp del]

definition decimal_value :: "string \<Rightarrow> nat" where
  "decimal_value ds = foldl (\<lambda>n d. 10 * n + digit_value d) 0 ds"

definition is_placeholder :: "string \<Rightarrow> bool" where
  "is_placeholder w = (case w of c # ds \<Rightarrow> c = CHR ''$'' \<and> ds \<noteq> [] \<and> list_all is_digit ds | [] \<Rightarrow> False)"

text \<open>Step 3, for one piece.\<close>

definition spec_restore :: "(nat \<times> string) list \<Rightarrow> string \<Rightarrow> decode_error + string" where
  "spec_restore tbl w =
     (if is_placeholder w then
        (case map_of tbl (decimal_value (tl w)) of
           Some m \<Rightarrow> Inr m
         | None \<Rightarrow> Inl (DecodeError (decimal_value (tl w))))
      else Inr w)"

fun spec_restore_all :: "(nat \<times> string) list \<Rightarrow> string list \<Rightarrow> decode_error + string list" where
  "spec_restore_all tbl [] = Inr []"
| "spec_restore_all tbl (w # ws) =
     (case spec_restore tbl w of
        Inl e \<Rightarrow> Inl e
      | Inr x \<Rightarrow> (case spec_restore_all tbl ws of Inl e \<Rightarrow> Inl e | Inr xs \<Rightarrow> Inr (x # xs)))"

text \<open>Steps 1--4: the operation name and the parameters.\<close>

definition spec_decode :: "string \<Rightarrow> decode_error + string \<times> string list" where
  "spec_decode s =
     (let (s', tbl) = spec_protect 0 s in
      case spec_restore_all tbl (js_split CHR ''.'' s') of
        Inl e \<Rightarrow> Inl e
      | Inr [] \<Rightarrow> Inr ([], [])
      | Inr (n # ps) \<Rightarrow> Inr (n, ps))"

text \<open>A reference for the match of \<open>/\$(\d)+/\<close> on line 105: the first index
  holding \<open>$\<close> followed by a digit, and as group 1 the last digit of the run of
  digits that follows it (a repeated group keeps its last iteration).\<close>

definition placeholder_ref :: "string \<Rightarrow> char option" where
  "placeholder_ref w =
     map_option (\<lambda>i. last (takeWhile is_digit (drop (Suc i) w)))
       (find (\<lambda>i. w ! i = CHR ''$'' \<and> Suc i < length w \<and> is_digit (w ! Suc i)) [0..<length w])"

section \<open>The program refines the specification\<close>

lemma spec_protect_None: "php_fpm_search s = None \<Longrightarrow> spec_protect i s = (s, [])"
  by (simp add: spec_protect.simps)

lemma spec_protect_single:
  "php_fpm_search s = Some (p, m, q) \<Longrightarrow> php_fpm_search q = None \<Longrightarrow>
   spec_protect 0 s = (p @ ''$0'' @ q, [(0, m)])"
  by (simp add: spec_protect.simps[of 0 s] spec_protect_None nat_to_decimal_0)

lemma spec_restore_plain: "CHR ''$'' \<notin> set w \<Longrightarrow> spec_restore tbl w = Inr w"
  by (cases w) (auto simp: spec_restore_def is_placeholder_def)

lemma spec_restore_zero: "spec_restore [(0, m)] ''$0'' = Inr m"
  by (simp add: spec_restore_def is_placeholder_def decimal_value_def digit_value_def is_digit_def)

lemma spec_restore_all_Inr:
  "\<forall>w\<in>set ws. spec_restore tbl w = Inr (g w) \<Longrightarrow> spec_restore_all tbl ws = Inr (map g ws)"
  by (induction ws) simp_all

text \<open>When the program and the specification protect the string alike and restore
  every piece alike, they decode alike.\<close>

lemma decode_agree:
  assumes code: "decode_operation s = (restore_arg r w, map (restore_arg r) ws)"
    and spec: "spec_protect 0 s = (s', tbl)" "js_split CHR ''.'' s' = w # ws"
    and pieces: "\<forall>u\<in>set (w # ws). restore_arg r u = Some (g u) \<and> spec_restore tbl u = Inr (g u)"
  shows "\<exists>n ps. spec_decode s = Inr (n, ps) \<and> decode_operation s = (Some n, map Some ps)"
proof -
  have "map (restore_arg r) ws = map (Some \<circ> g) ws"
    using pieces by simp
  with code pieces have "decode_operation s = (Some (g w), map Some (map g ws))" by simp
  moreover have "spec_restore_all tbl (w # ws) = Inr (map g (w # ws))"
    using pieces by (intro spec_restore_all_Inr) simp
  ultimately show ?thesis
    using spec by (simp add: spec_decode_def)
qed

lemma single_placeholder_pieces:
  assumes "CHR ''$'' \<notin> set p" "CHR ''$'' \<notin> set q"
    and "p = [] \<or> last p = CHR ''.''" "q = [] \<or> hd q = CHR ''.''"
  shows "\<forall>w\<in>set (js_split CHR ''.'' (p @ ''$0'' @ q)). w = ''$0'' \<or> CHR ''$'' \<notin> set w"
proof -
  have tail: "\<forall>w\<in>set (js_split CHR ''.'' (''$0'' @ q)). w = ''$0'' \<or> CHR ''$'' \<notin> set w"
  proof (cases "q = []")
    case False
    with assms(4) obtain q0 where "q = CHR ''.'' # q0" by (cases q) auto
    with assms(2) show ?thesis
      using js_split_append_sep[of "CHR ''.''" "''$0''" q0] by (auto dest: js_split_set)
  qed simp
  show ?thesis
  proof (cases "p = []")
    case False
    with assms(3) obtain p0 where "p = p0 @ [CHR ''.'']"
      by (metis append_butlast_last_id)
    with assms(1) tail show ?thesis
      using js_split_append[of "CHR ''.''" p0 "''$0'' @ q"] by (auto dest: js_split_set)
  qed (use tail in simp)
qed

text \<open>C26. Refinement of the specification's decoder: on an operation string without
  \<open>$\<close> in which the protected-token pattern matches at most once, and then as a
  whole piece (between dots or at an end), the specification's decoder succeeds and
  the program's decoder returns the same name and parameters.\<close>

theorem decode_refines_spec:
  assumes nodollar: "CHR ''$'' \<notin> set s"
    and single: "\<forall>p m q. php_fpm_search s = Some (p, m, q) \<longrightarrow>
       php_fpm_search q = None \<and> (p = [] \<or> last p = CHR ''.'') \<and> (q = [] \<or> hd q = CHR ''.'')"
  shows "\<exists>n ps. spec_decode s = Inr (n, ps) \<and> decode_operation s = (Some n, map Some ps)"
proof (cases "php_fpm_search s")
  case None
  have prot: "protect service_dot_regexps 0 s Map.empty = (s, Map.empty)"
    by (simp add: protect_service_dot_regexps None)
  obtain w ws where W: "js_split CHR ''.'' s = w # ws"
    by (cases "js_split CHR ''.'' s") simp_all
  moreover have "\<forall>w\<in>set (js_split CHR ''.'' s). restore_arg Map.empty w = Some (id w) \<and> spec_restore [] w = Inr (id w)"
  proof
    fix w assume "w \<in> set (js_split CHR ''.'' s)"
    with nodollar have "CHR ''$'' \<notin> set w" by (blast dest: js_split_set)
    then show "restore_arg Map.empty w = Some (id w) \<and> spec_restore [] w = Inr (id w)"
      by (simp add: restore_arg_plain spec_restore_plain)
  qed
  ultimately show ?thesis
    using decode_agree[OF decode_split_restore[OF prot W] spec_protect_None[OF None] W, where g = id] by simp
next
  case (Some pmq)
  then obtain p m q where srch: "php_fpm_search s = Some (p, m, q)" by (cases pmq) auto
  with single have q: "php_fpm_search q = None" and shape: "p = [] \<or> last p = CHR ''.''" "q = [] \<or> hd q = CHR ''.''"
    by auto
  have s: "s = p @ m @ q" using php_fpm_search_Some[OF srch] by simp
  have prot: "protect service_dot_regexps 0 s Map.empty = (p @ ''$0'' @ q, [0 \<mapsto> m])"
    by (simp add: protect_service_dot_regexps srch js_replace_first_at_match[OF srch])
  let ?g = "\<lambda>w. if w = ''$0'' then m else w"
  have "\<forall>w\<in>set (js_split CHR ''.'' (p @ ''$0'' @ q)). w = ''$0'' \<or> CHR ''$'' \<notin> set w"
    using nodollar s shape by (intro single_placeholder_pieces) auto
  then have "\<forall>w\<in>set (js_split CHR ''.'' (p @ ''$0'' @ q)).
      restore_arg [0 \<mapsto> m] w = Some (?g w) \<and> spec_restore [(0, m)] w = Inr (?g w)"
    by (auto simp: restore_arg_zero spec_restore_zero restore_arg_plain spec_restore_plain)
  moreover obtain w ws where W: "js_split CHR ''.'' (p @ ''$0'' @ q) = w # ws"
    by (cases "js_split CHR ''.'' (p @ ''$0'' @ q)") simp_all
  ultimately show ?thesis
    using decode_agree[OF decode_split_restore[OF prot W] spec_protect_single[OF srch q] W, where g = ?g] by simp
qed

lemma decode_refines_spec_witness:
  "spec_decode ''service.php8.0-fpm.restart'' = Inr (''service'', [''php8.0-fpm'', ''restart'']) \<and>
   decode_operation ''service.php8.0-fpm.restart'' = (Some ''service'', [Some ''php8.0-fpm'', Some ''restart''])"
  using decode_refines_spec[of "''service.php8.0-fpm.restart''"]
  by (simp add: decode_eval spec_decode_def spec_protect.simps spec_restore_def is_placeholder_def
      decimal_value_def nat_to_decimal.simps digit_char_def)

section \<open>The placeholder scanner against its reference\<close>

lemma last_digit_takeWhile: "last_digit d ds = last (d # takeWhile is_digit ds)"
  by (induction d ds rule: last_digit.induct) simp_all

lemma find_map_option: "find P (map f xs) = map_option f (find (P \<circ> f) xs)"
  by (induction xs) simp_all

lemma find_upt_Suc:
  "find P [0..<Suc n] = (if P 0 then Some 0 else map_option Suc (find (P \<circ> Suc) [0..<n]))"
  by (simp add: upt_conv_Cons map_Suc_upt[symmetric] find_map_option del: upt_Suc)

text \<open>C27. Equivalence of the character scanner \<open>placeholder_match\<close> with the
  reference \<open>placeholder_ref\<close>: the program's reading of \<open>/\$(\d)+/\<close> finds the
  leftmost \<open>$\<close>-digit position and returns the last digit of its run.\<close>

theorem placeholder_match_ref: "placeholder_match w = placeholder_ref w"
proof (induction w)
  case Nil
  show ?case by (simp add: placeholder_ref_def)
next
  case (Cons c cs)
  let ?P = "\<lambda>i. (c # cs) ! i = CHR ''$'' \<and> Suc i < length (c # cs) \<and> is_digit ((c # cs) ! Suc i)"
  have shift: "?P \<circ> Suc = (\<lambda>i. cs ! i = CHR ''$'' \<and> Suc i < length cs \<and> is_digit (cs ! Suc i))"
    by (simp add: fun_eq_iff)
  show ?case
  proof (cases cs)
    case Nil
    then show ?thesis by (simp add: placeholder_ref_def)
  next
    case (Cons d ds)
    have "placeholder_ref (c # cs) =
        (if c = CHR ''$'' \<and> is_digit d then Some (last (takeWhile is_digit cs))
         else placeholder_ref cs)"
      unfolding placeholder_ref_def
      by (simp only: length_Cons find_upt_Suc shift) (simp add: Cons option.map_comp comp_def)
    with Cons.IH Cons show ?thesis
      by (simp add: last_digit_takeWhile)
  qed
qed

end
