(* ===== verification/RunSteps.thy ===== *)
theory RunSteps
  imports Run
begin

text \<open>
  \<open>run()\<close> (lines 87--144) as a state machine whose steps go from one \<open>await\<close> or
  \<open>throw\<close> of the code to the next. A configuration is a program point (\<open>phase\<close>)
  and the state of the action; each rule of \<open>run_step\<close> is one branch of the code
  between two such points, with the code's condition as its premise. Every error
  step goes to \<open>Final\<close> through the \<open>catch\<close> of line 141, which calls
  \<open>core.setFailed\<close>.
\<close>

datatype phase =
    Start
  | Found endpoint_config "string option list"
  | Fetched endpoint_config "string option list" json
  | Authorized endpoint_config "string option list" json
  | Answered command_response
  | Final

text \<open>The \<open>catch\<close> of line 141 applied to the outcome of a block.\<close>

definition settle :: "(js_error + 'a) \<times> action_state \<Rightarrow> action_state" where
  "settle r = (case r of (Inl e, st') \<Rightarrow> set_failed (error_message e) st' | (Inr _, st') \<Rightarrow> st')"

inductive run_step :: "transport \<Rightarrow> phase \<times> action_state \<Rightarrow> phase \<times> action_state \<Rightarrow> bool"
  for net :: transport where
  unknown: "decode_operation (inputs st ''operation'') = (op, args) \<Longrightarrow> lookup_endpoint op = Absent \<Longrightarrow>
    run_step net (Start, st) (Final, set_failed (error_message (unknown_operation op)) st)"
| inherited: "decode_operation (inputs st ''operation'') = (op, args) \<Longrightarrow> lookup_endpoint op = Inherited k \<Longrightarrow>
    run_step net (Start, st) (Final, set_failed (error_message keys_of_undefined) (log (found_message op) st))"
| found: "decode_operation (inputs st ''operation'') = (op, args) \<Longrightarrow> lookup_endpoint op = Own cfg \<Longrightarrow>
    run_step net (Start, st) (Found cfg args, log (found_message op) st)"
| mismatch: "validate_parameters (Some (params cfg)) args = Inr False \<Longrightarrow>
    run_step net (Found cfg args, st) (Final, set_failed (error_message parameters_not_understood) st)"
| token_error: "validate_parameters (Some (params cfg)) args = Inr True \<Longrightarrow> get_oauth_token net st = (Inl e, st') \<Longrightarrow>
    run_step net (Found cfg args, st) (Final, set_failed (error_message e) st')"
| token: "validate_parameters (Some (params cfg)) args = Inr True \<Longrightarrow> get_oauth_token net st = (Inr j, st') \<Longrightarrow>
    run_step net (Found cfg args, st) (Fetched cfg args j, st')"
| rejected: "check_token j = Inl e \<Longrightarrow>
    run_step net (Fetched cfg args j, st) (Final, set_failed (error_message e) st)"
| accepted: "check_token j = Inr tok \<Longrightarrow>
    run_step net (Fetched cfg args j, st) (Authorized cfg args tok, log authenticated_message st)"
| command_error: "command cfg args tok net st = (Inl e, st') \<Longrightarrow>
    run_step net (Authorized cfg args tok, st) (Final, set_failed (error_message e) st')"
| answered: "command cfg args tok net st = (Inr r, st') \<Longrightarrow>
    run_step net (Authorized cfg args tok, st) (Answered r, st')"
| remote_error: "handle_response r st = (Inl e, st') \<Longrightarrow>
    run_step net (Answered r, st) (Final, set_failed (error_message e) st')"
| success: "handle_response r st = (Inr (), st') \<Longrightarrow>
    run_step net (Answered r, st) (Final, st')"

text \<open>What the rest of \<open>run()\<close> makes of a configuration: the continuation of the
  code from each program point, written with the definitions of \<open>Run\<close>.\<close>

fun finish :: "transport \<Rightarrow> phase \<times> action_state \<Rightarrow> action_state" where
  "finish net (Start, st) = run net st"
| "finish net (Found cfg args, st) = settle (dispatch_with_config cfg args net st)"
| "finish net (Fetched cfg args j, st) =
     (case check_token j of
        Inl e \<Rightarrow> set_failed (error_message e) st
      | Inr tok \<Rightarrow> settle (act_bind (command cfg args tok net) handle_response (log authenticated_message st)))"
| "finish net (Authorized cfg args tok, st) = settle (act_bind (command cfg args tok net) handle_response st)"
| "finish net (Answered r, st) = settle (handle_response r st)"
| "finish net (Final, st) = st"

text \<open>The number of program points still ahead.\<close>

fun phase_rank :: "phase \<Rightarrow> nat" where
  "phase_rank Start = 5"
| "phase_rank (Found cfg args) = 4"
| "phase_rank (Fetched cfg args j) = 3"
| "phase_rank (Authorized cfg args tok) = 2"
| "phase_rank (Answered r) = 1"
| "phase_rank Final = 0"

text \<open>How many requests \<open>run()\<close> has sent when it reaches a program point, and what
  holds of the state at every program point before the end (relative to the state
  \<open>st0\<close> it started from).\<close>

fun phase_requests :: "phase \<Rightarrow> nat" where
  "phase_requests (Fetched cfg args j) = 1"
| "phase_requests (Authorized cfg args tok) = 1"
| "phase_requests (Answered r) = 2"
| "phase_requests _ = 0"

definition step_inv :: "transport \<Rightarrow> action_state \<Rightarrow> phase \<times> action_state \<Rightarrow> bool" where
  "step_inv net st0 c =
     (case c of
        (Final, st) \<Rightarrow> True
      | (ph, st) \<Rightarrow>
          failed st = failed st0 \<and> outputs st = outputs st0 \<and> inputs st = inputs st0 \<and>
          length (requests st) = length (requests st0) + phase_requests ph \<and>
          take (length (requests st0)) (requests st) = requests st0 \<and>
          take 1 (drop (length (requests st0)) (requests st)) = take (phase_requests ph) [token_request st0] \<and>
          (case ph of
             Fetched cfg args j \<Rightarrow> \<exists>s. net (token_request st0) = Response s (Inr j)
           | Authorized cfg args tok \<Rightarrow> \<exists>s j. net (token_request st0) = Response s (Inr j) \<and> check_token j = Inr tok
           | _ \<Rightarrow> True))"

inductive_cases run_step_FinalE [elim!]: "run_step net (Final, st) c"

lemma run_step_finish: "run_step net c c' \<Longrightarrow> finish net c' = finish net c"
proof (induction rule: run_step.induct)
  case (unknown st op args)
  then show ?case by (simp add: run_Absent)
next
  case (inherited st op args k)
  then show ?case by (simp add: run_Inherited)
next
  case (found st op args cfg)
  then show ?case by (simp add: run_Own settle_def)
next
  case (mismatch cfg args st)
  then show ?case by (simp add: dispatch_with_config_mismatch settle_def)
next
  case (token_error cfg args st e st')
  then show ?case by (simp add: dispatch_with_config_token settle_def)
next
  case (token cfg args st j st')
  then show ?case by (simp add: dispatch_with_config_token settle_def split: sum.split)
qed (simp_all add: settle_def act_bind_apply)

lemma run_step_rank: "run_step net c c' \<Longrightarrow> phase_rank (fst c') < phase_rank (fst c)"
  by (induction rule: run_step.induct) simp_all

lemma run_step_progress: "fst c \<noteq> Final \<Longrightarrow> \<exists>c'. run_step net c c'"
proof (cases c)
  case (Pair ph st)
  assume nf: "fst c \<noteq> Final"
  show ?thesis
  proof (cases ph)
    case Start
    obtain op args where d: "decode_operation (inputs st ''operation'') = (op, args)" by fastforce
    show ?thesis
      using d Pair Start by (cases "lookup_endpoint op") (blast intro: run_step.intros)+
  next
    case (Found cfg args)
    obtain x st' where g: "get_oauth_token net st = (x, st')" by fastforce
    show ?thesis
    proof (cases "length (params cfg) = length args")
      case True
      then have v: "validate_parameters (Some (params cfg)) args = Inr True" by simp
      show ?thesis
        using g Pair Found by (cases x) (blast intro: run_step.token_error[OF v] run_step.token[OF v])+
    next
      case False
      then have v: "validate_parameters (Some (params cfg)) args = Inr False" by simp
      show ?thesis using Pair Found by (blast intro: run_step.mismatch[OF v])
    qed
  next
    case (Fetched cfg args j)
    then show ?thesis using Pair by (cases "check_token j") (auto intro: run_step.intros)
  next
    case (Authorized cfg args tok)
    obtain x st' where g: "command cfg args tok net st = (x, st')" by fastforce
    then show ?thesis using Pair Authorized by (cases x) (auto intro: run_step.intros)
  next
    case (Answered r)
    obtain x st' where g: "handle_response r st = (x, st')" by fastforce
    then show ?thesis using Pair Answered by (cases x) (auto intro: run_step.intros)
  qed (use nf Pair in simp)
qed
lemma run_steps_finish: "(run_step net)\<^sup>*\<^sup>* c c' \<Longrightarrow> finish net c' = finish net c"
  by (induction rule: rtranclp_induct) (simp_all add: run_step_finish)

lemma run_steps_reach_final: "(run_step net)\<^sup>*\<^sup>* c (Final, finish net c)"
proof (induction "phase_rank (fst c)" arbitrary: c rule: less_induct)
  case less
  show ?case
  proof (cases "fst c = Final")
    case True
    then obtain st where "c = (Final, st)" by (cases c) simp
    then show ?thesis by simp
  next
    case False
    with run_step_progress obtain c' where s: "run_step net c c'" by blast
    from less.hyps[OF run_step_rank[OF s]] have "(run_step net)\<^sup>*\<^sup>* c' (Final, finish net c')" .
    with s show ?thesis
      by (simp add: run_step_finish[OF s] converse_rtranclp_into_rtranclp)
  qed
qed

lemma get_oauth_token_Inr:
  "get_oauth_token net st = (Inr j, st') \<Longrightarrow>
   st' = st\<lparr>requests := requests st @ [token_request st]\<rparr> \<and> (\<exists>s. net (token_request st) = Response s (Inr j))"
  by (simp add: get_oauth_token_apply[OF refl] split: fetch_outcome.splits sum.splits)

lemma run_step_inv:
  assumes "run_step net c c'" "step_inv net st0 c"
  shows "step_inv net st0 c'"
  using assms
proof (induction rule: run_step.induct)
  case (found st op args cfg)
  then show ?case by (simp add: step_inv_def)
next
  case (token cfg args st j st')
  have "token_request st = token_request st0"
    using token.prems by (simp add: step_inv_def token_request_def)
  with get_oauth_token_Inr[OF token.hyps(2)] token.prems show ?case
    by (simp add: step_inv_def)
next
  case (accepted j tok cfg args st)
  then show ?case by (simp add: step_inv_def) blast
next
  case (answered cfg args tok st r st')
  from command_state[OF answered.hyps] answered.prems show ?case
    by (simp add: step_inv_def)
qed (simp_all add: step_inv_def)

text \<open>C12. Invariant of \<open>run()\<close>: every configuration an execution reaches before the
  end satisfies \<open>step_inv\<close>. Until its last step the action has not failed, has set no
  output and keeps its inputs; it has sent no request before the token fetch, exactly
  one after it and two after the endpoint request, the first of them the token request;
  and the JSON and the token it holds are the answer of that token request and what
  \<open>check_token\<close> made of it.\<close>

theorem run_steps_inv:
  assumes "(run_step net)\<^sup>*\<^sup>* (Start, st0) c"
  shows "step_inv net st0 c"
  using assms
proof (induction rule: rtranclp_induct)
  case base
  then show ?case by (simp add: step_inv_def)
next
  case (step c c')
  from run_step_inv[OF step.hyps(2) step.IH] show ?case .
qed

lemma run_steps_inv_witness:
  "(run_step (\<lambda>_. Network_error []))\<^sup>*\<^sup>* (Start, action_start (\<lambda>_. ''varnish.purge''))
     (Found \<lparr>endpoint = ''/service/varnish'', params = [''action'']\<rparr> [Some ''purge''],
      log (found_message (Some ''varnish'')) (action_start (\<lambda>_. ''varnish.purge''))) \<and>
   failed (log (found_message (Some ''varnish'')) (action_start (\<lambda>_. ''varnish.purge''))) = None \<and>
   requests (log (found_message (Some ''varnish'')) (action_start (\<lambda>_. ''varnish.purge''))) = []"
proof -
  let ?st = "action_start (\<lambda>_. ''varnish.purge'')"
  let ?c = "(Found \<lparr>endpoint = ''/service/varnish'', params = [''action'']\<rparr> [Some ''purge''],
      log (found_message (Some ''varnish'')) ?st)"
  have "run_step (\<lambda>_. Network_error []) (Start, ?st) ?c"
    by (rule run_step.found) (simp_all add: decode_eval registry_eval)
  then have r: "(run_step (\<lambda>_. Network_error []))\<^sup>*\<^sup>* (Start, ?st) ?c"
    by (rule r_into_rtranclp)
  from r run_steps_inv[OF r] show ?thesis by (simp add: step_inv_def)
qed

end
