(* ===== verification/Spec2Isabelle.thy ===== *)
theory Spec2Isabelle
  imports Run DecoderSpec RunSteps
begin

text \<open>
  \<^bold>\<open>A verification model of the Cloudways operations action (src/index.js).\<close>

  \<^bold>\<open>The program.\<close> One \<open>async\<close> function \<open>run()\<close> (lines 87--144) reads the
  operation string, e.g. \<open>service.php8.0-fpm.restart\<close>, and decodes it into an
  operation name and positional parameters (lines 89--113); it looks the name up in
  \<open>supportedEndpoints\<close> (lines 6--26, read on line 114), checks the number of
  parameters with \<open>validateParameters\<close> (lines 82--84), exchanges the e-mail and API
  key for an OAuth token with \<open>getOauthToken\<close> (lines 29--44) and checks the answer
  (lines 123--129), then posts \<open>server_id\<close> and the parameters to the endpoint with
  \<open>command\<close> and \<open>optionsWithAuth\<close> (lines 47--80) and reports the answer (lines
  133--140). Its \<open>catch\<close> turns every error into \<open>core.setFailed\<close>.

  \<^bold>\<open>Theories and what they model\<close>, leaf first:
  \<^item> \<open>Prelude\<close>: the fact collections (\<open>act_simps\<close>, \<open>js_simps\<close>,
    \<open>decode_simps\<close>), the state-and-exception monad \<open>act\<close> in which the
    asynchronous code is written (a rejected \<open>await\<close> and a \<open>throw\<close> are both
    \<open>Inl\<close>, the \<open>await\<close>s are sequential so the state is threaded in program
    order), and list lemmas on runs and prefixes.
  \<^item> \<open>JsRuntime\<close>: the JavaScript semantics the program relies on: JSON values,
    the thrown errors and \<open>error.message\<close>, truthiness, \<open>String(v)\<close>, \<open>v == 0\<close>,
    property reads on parsed JSON, \<open>JSON.stringify\<close>, \<open>split\<close>, \<open>indexOf\<close>,
    \<open>replace\<close> with a string pattern and \<open>join\<close>; split and join are proved inverse.
  \<^item> \<open>Registry\<close>: \<open>supportedEndpoints\<close> as an association list of
    \<open>endpoint_config\<close> records and the lookup \<open>lookup_endpoint\<close>, whose result
    \<open>registry_entry\<close> distinguishes own entries, properties inherited from
    \<open>Object.prototype\<close> and absent keys; \<open>config_wf\<close>/\<open>registry_wf\<close> state what
    the dispatcher needs of an entry.
  \<^item> \<open>Decoder\<close>: the regular expression \<open>/php\d+\.\d+-fpm/\<close> as a matcher at a
    position (\<open>php_fpm_at\<close>) and a leftmost search (\<open>php_fpm_search\<close>), both
    proved against the language \<open>php_fpm_lang\<close> and the specification
    \<open>leftmost_match\<close>; the protecting loop \<open>protect\<close>, the placeholder pattern
    \<open>/\$(\d)+/\<close> (\<open>placeholder_match\<close>, keeping the last digit as JavaScript
    does), the callback \<open>restore_arg\<close> and the decoder \<open>decode_operation\<close>.
  \<^item> \<open>DecoderSpec\<close>: the decoder as section 4.2 of the specification states it
    (\<open>spec_protect\<close>, a \<open>function\<close> whose termination measure is the length of the
    string, \<open>spec_restore\<close>, \<open>spec_decode\<close> with the error \<open>DecodeError\<close> of
    section 7) and a reference reading \<open>placeholder_ref\<close> of \<open>/\$(\d)+/\<close>; these
    are specifications, against which the program's decoder is proved.
  \<^item> \<open>JsonRead\<close>: the server's side of a request body: a JSON reader for flat objects
    of strings (\<open>json_read_flat_object\<close>, terminating because the string reader
    \<open>json_parse_string\<close> of \<open>JsRuntime\<close> consumes input), proved inverse to
    \<open>JSON.stringify\<close> on such objects.
  \<^item> \<open>Validator\<close>: \<open>validateParameters\<close> with \<open>Object.keys\<close> of an array and of
    \<open>undefined\<close>.
  \<^item> \<open>ActionsCore\<close>: the environment: \<open>core.getInput\<close>, \<open>core.info\<close>,
    \<open>core.setOutput\<close>, \<open>core.setFailed\<close>, \<open>fetch\<close> and \<open>res.json()\<close> as
    operations on the record \<open>action_state\<close> (inputs, log, outputs, failure message,
    and the trace \<open>requests\<close> of HTTP requests in the order made). The server is a
    parameter \<open>net\<close>: a function from a request to its answer, so every theorem holds
    for every server behaviour.
  \<^item> \<open>Auth\<close>: \<open>getOauthToken\<close> (\<open>get_oauth_token\<close>, one request
    \<open>token_request\<close>) and the checks of lines 123--129 (\<open>check_token\<close>), including
    the misspelt \<open>legnth\<close>.
  \<^item> \<open>Dispatch\<close>: the request body built by assignment (\<open>assign_params\<close> with
    \<open>obj_set\<close> and \<open>js_shift\<close>), \<open>optionsWithAuth\<close> and \<open>command\<close>.
  \<^item> \<open>Run\<close>: the response callback \<open>handle_response\<close>, the part after the lookup
    \<open>dispatch_with_config\<close>, the \<open>try\<close> block \<open>run_try\<close> and \<open>run\<close> with its
    \<open>catch\<close>. The lemmas \<open>run_Absent\<close>, \<open>run_Inherited\<close>, \<open>run_Own\<close> and
    \<open>run_Own_valid\<close> unfold a run by branch; \<open>run_requests_cases\<close> lists the
    possible request traces.
  \<^item> \<open>RunSteps\<close>: the same \<open>run()\<close> as a state machine: \<open>phase\<close> names the
    program points between \<open>await\<close>s and \<open>throw\<close>s (\<open>Start\<close>, \<open>Found\<close>,
    \<open>Fetched\<close>, \<open>Authorized\<close>, \<open>Answered\<close>, \<open>Final\<close>), the inductive
    \<open>run_step\<close> has one rule per branch of the code, \<open>settle\<close> is the
    \<open>catch\<close>, and \<open>finish\<close> is the rest of the code from each point; every step
    keeps \<open>finish\<close>, which is how the machine is tied to \<open>run\<close>; \<open>step_inv\<close>
    is the invariant of the configurations before the end, with \<open>phase_requests\<close>
    the number of requests sent at each program point.
    \<open>action_main\<close> (in \<open>Run\<close>) is the call \<open>run();\<close> of line 146.

  \<^bold>\<open>What is proved\<close> (claims C1--C32, each after a text naming it). For every
  input and every server: no request reaches an endpoint unless the operation
  resolved, the arity matched and the token passed the checks, and then with that
  token (C1); the successful run, its requests, logs and output (C2); at most two
  requests, the token request first (C5), every one a JSON POST to the token URL or a
  registered endpoint (C29); exactly one outcome, success output or failure (C11); each
  error path with its message and requests: unknown operation (C8), arity mismatch
  (C9), authentication error (C7), remote error (C10), network failure (C24), invalid
  JSON (C25), an operation named like an \<open>Object.prototype\<close> property (C21).
  The state machine of \<open>RunSteps\<close> keeps the invariant \<open>step_inv\<close> in every
  configuration before the end, by rule induction (C12). The decoder: its round trip on
  protected service names (C3), the plain split otherwise (C15), the protecting loop
  (C16), the regular expression against its language and the leftmost-match rule (C6,
  C17), the scanner of \<open>/\$(\d)+/\<close> against an index-based reference (C27), and its
  refinement of the specification's decoder under the specification's assumptions
  (C26). The request of \<open>command\<close> (C4), the envelope the endpoint reads back from
  it (C28), and, across decoder, registry, dispatcher and JSON, what the endpoint
  receives from a whole run (C20). The token checks (C13, C14), the credentials
  reaching the token endpoint intact by a JSON string reader proved inverse to
  \<open>JSON.stringify\<close> (C22), and the well-formedness of the registry (C18).

  \<^bold>\<open>Findings.\<close> Behaviours of the code that the specification does not expect: a
  literal \<open>$0\<close> in a parameter decodes to \<open>undefined\<close> (C19), passes the arity
  check and is left out of the request (C20); an operation named like an
  \<open>Object.prototype\<close> property fails with a \<open>TypeError\<close> (C21); the piece holding
  a protected name is replaced as a whole, and digits after the name change the index
  (C23); \<open>$10\<close> is read as index 0, since the group keeps its last digit (C27); a
  number, \<open>true\<close>, an array or an object passes the token checks and is sent as
  \<open>Bearer\<close> followed by \<open>String(token)\<close> (C30). A literal \<open>$0\<close> in a later parameter
  aliases the protected name (C31), and only the first protected name of an operation
  is protected, a second one is split at its dot (C32).

  \<^bold>\<open>Bounds and termination.\<close> There are no loops that may diverge: the decoder's
  scans are structural recursions on the string, \<open>nat_to_decimal\<close> recurses on
  \<open>n div 10\<close>, and \<open>run\<close> makes at most two requests (C5), so no fuel is needed.
  The step relation of \<open>RunSteps\<close> decreases \<open>phase_rank\<close> (5 at \<open>Start\<close>, 0
  at \<open>Final\<close>), which is how \<open>run_steps_reach_final\<close> shows that every
  configuration reaches the end in the state \<open>run\<close> computes. The two definitions
  by \<open>function\<close> are specifications: \<open>spec_protect\<close> ends because the search
  restarts on the shorter text after a match, \<open>json_members\<close> because every member
  read consumes input.

  \<^bold>\<open>Not modelled.\<close> JavaScript numbers are integers here (the program only prints
  numbers the server sends); strings are lists of characters rather than UTF-16 code
  units; \<open>JSON.stringify\<close> of objects keeps insertion order, which differs from
  JavaScript only for integer-like keys, of which the program has none; property reads
  are modelled for the keys the program uses. The libraries \<open>@actions/core\<close> and
  \<open>node-fetch\<close> are modelled by their observable effect only: no timeouts, redirects,
  streaming, exit code or environment variables; the server is arbitrary. In
  particular \<open>core.getInput\<close> is the input map of the state as given: the library
  reads the variable \<open>INPUT_<NAME>\<close> and trims it, which lies outside this repository
  and is taken as done by the runner. The final
  call \<open>run()\<close> of line 146 is \<open>run\<close> applied to the initial state.
\<close>

section \<open>The whole pipeline\<close>

text \<open>C20. What the endpoint receives (decoder, registry, dispatcher and JSON together):
  whenever a run makes its second request, the body of that request parses as exactly
  \<open>server_id\<close> followed by the declared names paired with the decoded parameters that
  are defined, in order; a parameter decoded as \<open>undefined\<close> passes the arity check
  and its field is silently left out of the request.\<close>

theorem run_endpoint_body:
  assumes "requests (run net st) = requests st @ [r1, r2]"
  shows "\<exists>op args cfg. decode_operation (inputs st ''operation'') = (op, args) \<and> lookup_endpoint op = Own cfg \<and>
     length (params cfg) = length args \<and> json_read_flat_object (body (snd r2)) =
       Some ((''server_id'', inputs st ''server-id'') # [(k, v). (k, Some v) \<leftarrow> zip (params cfg) args], [])"
  using assms
proof (cases rule: run_requests_cases[of net st])
  case (both op args cfg status j tok)
  with assms have "r2 = dispatch_request st cfg args tok" by simp
  moreover have "request_body (inputs st ''server-id'') cfg args =
      (''server_id'', Some (inputs st ''server-id'')) # zip (params cfg) args"
    using both lookup_endpoint_Own_config_wf by (intro request_body_fields) simp_all
  ultimately show ?thesis
    using both json_read_stringify_flat[of "(''server_id'', inputs st ''server-id'') # [(k, v). (k, Some v) \<leftarrow> zip (params cfg) args]" "[]"]
    by (auto simp: dispatch_request_def options_with_auth_def js_object_json_filter)
qed auto

lemma run_endpoint_body_witness:
  "json_read_flat_object (body (snd (requests (run (\<lambda>(url, _). if url = oauth_url
        then Response 200 (Inr (JObj [(''access_token'', JStr ''tok'')])) else Response 200 (Inr (JObj [])))
      (action_start (\<lambda>k. if k = ''operation'' then ''varnish.$0'' else ''42''))) ! 1))) =
   Some ([(''server_id'', ''42'')], [])"
proof -
  let ?net = "\<lambda>(url, _). if url = oauth_url
        then Response 200 (Inr (JObj [(''access_token'', JStr ''tok'')])) else Response 200 (Inr (JObj []))"
  let ?st = "action_start (\<lambda>k. if k = ''operation'' then ''varnish.$0'' else ''42'')"
  let ?cfg = "\<lparr>endpoint = ''/service/varnish'', params = [''action'']\<rparr>"
  have dec: "decode_operation (inputs ?st ''operation'') = (Some ''varnish'', [None])"
    by (simp add: decode_eval)
  have own: "lookup_endpoint (Some ''varnish'') = Own ?cfg"
    by (simp add: registry_eval)
  have tok: "check_token (JObj [(''access_token'', JStr ''tok'')]) = Inr (JStr ''tok'')"
    by (simp add: check_token_def get_prop_def)
  have oauth: "?net (token_request ?st) = Response 200 (Inr (JObj [(''access_token'', JStr ''tok'')]))"
    by (simp add: token_request_def)
  let ?r2 = "dispatch_request ?st ?cfg [None] (JStr ''tok'')"
  have reqs: "requests (run ?net ?st) = requests ?st @ [token_request ?st, ?r2]"
    using run_Own_valid[OF dec own, of ?net] oauth tok
    by (simp add: Let_def handle_response_settle split: fetch_outcome.split sum.split)
  from run_endpoint_body[OF reqs] dec own reqs show ?thesis by simp
qed

end
